theory Spec2Isabelle
  imports Main "HOL-Library.Finite_Map" "HOL-Library.Char_ord" "HOL-Library.List_Lexorder"
begin

section \<open>Data model of \<open>src/App.tsx\<close>\<close>

text \<open>
  The timetable application keeps one store, a \<open>HistoryState\<close>, and changes it only through
  \<open>reducer\<close>. The design and UI preference objects are only ever merged by object spread,
  which reads and writes own properties: they are finite maps from property names to
  values. The schedule is a plain object that the reducers index with arbitrary strings
  (\<open>obj[key]\<close>, \<open>obj[key] = v\<close>, \<open>delete obj[key]\<close>), so it is modelled with its own properties
  and its prototype, and a lookup also finds the names a plain object inherits from
  \<open>Object.prototype\<close>. Strings are lists of characters; numbers are integers.

  The types \<open>Teacher\<close>, \<open>ClassGroup\<close>, \<open>LessonData\<close>, \<open>TimeSettings\<close> and \<open>TimeSlot\<close> are
  declared in \<open>./types\<close>, which is not part of the sources at hand. The fields of \<open>Teacher\<close>,
  \<open>ClassGroup\<close> and \<open>TimeSettings\<close> are the ones \<open>DEFAULT_STATE\<close> gives them in \<open>App.tsx\<close>.
\<close>

record Teacher =
  id_T :: string
  name_T :: string
  color :: string

record ClassGroup =
  id_C :: string
  name_C :: string

text \<open>
  Modelled from the spec: a placement (\<open>LessonData\<close>) holds the id of its teacher and a
  subject. \<open>App.tsx\<close> reads the field \<open>teacherId\<close> only.
\<close>

record LessonData =
  teacherId :: string
  subject :: string

text \<open>
  The values a schedule object can hold at run time. The type \<open>Schedule\<close> of the source
  promises placements only, but \<open>MOVE_LESSON\<close> stores whatever \<open>schedCopy[fromKey]\<close> and
  \<open>schedCopy[toKey]\<close> return, and for a name inherited from \<open>Object.prototype\<close> that is a
  built-in function (\<open>PrototypeFunction name\<close>: \<open>Object\<close> for \<open>constructor\<close>,
  \<open>Object.prototype.toString\<close> for \<open>toString\<close>, and so on) or, for \<open>__proto__\<close>, the
  prototype object itself.
\<close>

datatype slot_value = Lesson LessonData | PrototypeFunction string | ObjectPrototype

text \<open>
  A schedule object: its own enumerable properties and its prototype. An object literal and
  a spread copy have the prototype \<open>Object.prototype\<close>; only an assignment to \<open>__proto__\<close>
  changes it.
\<close>

record Schedule =
  entries :: "(string, slot_value) fmap"
  proto :: slot_value

text \<open>The object literal \<open>{}\<close>.\<close>

definition empty_object :: Schedule where
  "empty_object = \<lparr>entries = fmempty, proto = ObjectPrototype\<rparr>"

record TimeSettings =
  lessonDuration :: int
  breakDuration :: int
  lessonsBeforeBreak :: int
  startTime :: string
  totalLessons :: int

text \<open>\<open>Partial<TimeSettings>\<close>: every field may be absent.\<close>

record TimeSettings_partial =
  lessonDuration_opt :: "int option"
  breakDuration_opt :: "int option"
  lessonsBeforeBreak_opt :: "int option"
  startTime_opt :: "string option"
  totalLessons_opt :: "int option"

text \<open>
  Modelled from the spec: a \<open>TimeSlot\<close> has a 0-based ordinal, a time range (here its first
  and last minute, counted from midnight) and a break flag. \<open>App.tsx\<close> passes the slots from
  \<open>calculateTimeSlots\<close> to \<open>runOptimization\<close> and reads none of their fields.
\<close>

record TimeSlot =
  index :: nat
  startMinute :: int
  endMinute :: int
  isBreak :: bool

text \<open>
  Values of the preference objects (\<open>design\<close>, \<open>ui\<close>, \<open>printDesign\<close>) and of an imported or
  persisted payload (\<open>any\<close> in the source).
\<close>

datatype jsval =
    JNull
  | JBool bool
  | JNum int
  | JStr string
  | JArr "jsval list"
  | JObj "(string, jsval) fmap"

type_synonym jsobj = "(string, jsval) fmap"

record AppState =
  teachers :: "Teacher list"
  classes :: "ClassGroup list"
  schedule :: Schedule
  settings :: TimeSettings
  design :: jsobj
  ui :: jsobj
  printDesign :: jsobj

datatype Action =
    INIT jsval
  | UNDO
  | REDO
  | ADD_TEACHER Teacher
  | UPDATE_TEACHER Teacher
  | DELETE_TEACHER string
  | ADD_CLASS ClassGroup
  | UPDATE_CLASS ClassGroup
  | DELETE_CLASS string
  | UPDATE_SETTINGS TimeSettings_partial
  | UPDATE_DESIGN jsobj
  | UPDATE_PRINT_DESIGN jsobj
  | UPDATE_UI jsobj
  | SET_LESSON string "LessonData option"
  | MOVE_LESSON string string
  | OPTIMIZE_SCHEDULE
  | REPLACE_SCHEDULE Schedule
  | RESET_PROJECT

text \<open>The \<open>type\<close> tag of an action, as the string the source switches on.\<close>

fun type_of :: "Action \<Rightarrow> string" where
  "type_of (INIT payload) = ''INIT''"
| "type_of UNDO = ''UNDO''"
| "type_of REDO = ''REDO''"
| "type_of (ADD_TEACHER payload) = ''ADD_TEACHER''"
| "type_of (UPDATE_TEACHER payload) = ''UPDATE_TEACHER''"
| "type_of (DELETE_TEACHER payload) = ''DELETE_TEACHER''"
| "type_of (ADD_CLASS payload) = ''ADD_CLASS''"
| "type_of (UPDATE_CLASS payload) = ''UPDATE_CLASS''"
| "type_of (DELETE_CLASS payload) = ''DELETE_CLASS''"
| "type_of (UPDATE_SETTINGS payload) = ''UPDATE_SETTINGS''"
| "type_of (UPDATE_DESIGN payload) = ''UPDATE_DESIGN''"
| "type_of (UPDATE_PRINT_DESIGN payload) = ''UPDATE_PRINT_DESIGN''"
| "type_of (UPDATE_UI payload) = ''UPDATE_UI''"
| "type_of (SET_LESSON key data) = ''SET_LESSON''"
| "type_of (MOVE_LESSON fromKey toKey) = ''MOVE_LESSON''"
| "type_of OPTIMIZE_SCHEDULE = ''OPTIMIZE_SCHEDULE''"
| "type_of (REPLACE_SCHEDULE payload) = ''REPLACE_SCHEDULE''"
| "type_of RESET_PROJECT = ''RESET_PROJECT''"

record HistoryState =
  past :: "Schedule list"
  present :: AppState
  future :: "Schedule list"

definition HISTORY_LIMIT :: nat where
  "HISTORY_LIMIT = 100"

subsection \<open>What \<open>App.tsx\<close> imports\<close>

text \<open>
  \<open>COLORS\<close> comes from \<open>./types\<close>; \<open>calculateTimeSlots\<close>, \<open>runOptimization\<close> and \<open>deepMerge\<close>
  come from \<open>./utils\<close>; \<open>JSON.parse\<close> is the platform's. None of them is in the sources at
  hand, so the reducers take them as parameters. Each function may throw: its result is
  either an exception (\<open>Inl\<close>) or a value (\<open>Inr\<close>). The type \<open>'e\<close> of exceptions is left open.
\<close>

record 'e imported =
  COLORS :: "nat \<Rightarrow> string"
  calculateTimeSlots :: "TimeSettings \<Rightarrow> 'e + TimeSlot list"
  runOptimization :: "Schedule \<Rightarrow> ClassGroup list \<Rightarrow> TimeSlot list \<Rightarrow> 'e + Schedule"
  deepMerge :: "AppState \<Rightarrow> jsval \<Rightarrow> 'e + AppState"
  JSON_parse :: "string \<Rightarrow> 'e + jsval"

subsection \<open>The default state\<close>

text \<open>
  The display texts of \<open>DEFAULT_STATE\<close> are Pashto; each is given by the bytes of its UTF-8
  encoding in the source file.
\<close>

definition teacher_1_name :: string where
  "teacher_1_name = [CHR 0xDA, CHR 0x9A, CHR 0xD9, CHR 0x88, CHR 0xD9, CHR 0x88, CHR 0xD9,
     CHR 0x86, CHR 0xDA, CHR 0xA9, CHR 0xDB, CHR 0x8C, CHR 0x20, CHR 0xDB, CHR 0xB1]"

definition teacher_2_name :: string where
  "teacher_2_name = [CHR 0xDA, CHR 0x9A, CHR 0xD9, CHR 0x88, CHR 0xD9, CHR 0x88, CHR 0xD9,
     CHR 0x86, CHR 0xDA, CHR 0xA9, CHR 0xDB, CHR 0x8C, CHR 0x20, CHR 0xDB, CHR 0xB2]"

definition class_1_name :: string where
  "class_1_name = [CHR 0xDB, CHR 0xB1, CHR 0x20, CHR 0xD9, CHR 0xBC, CHR 0xD9, CHR 0x88,
     CHR 0xD9, CHR 0x84, CHR 0xDA, CHR 0xAB, CHR 0xDB, CHR 0x8C]"

definition class_2_name :: string where
  "class_2_name = [CHR 0xDB, CHR 0xB2, CHR 0x20, CHR 0xD9, CHR 0xBC, CHR 0xD9, CHR 0x88,
     CHR 0xD9, CHR 0x84, CHR 0xDA, CHR 0xAB, CHR 0xDB, CHR 0x8C]"

definition print_title :: string where
  "print_title = [CHR 0xD8, CHR 0xAF, CHR 0x20, CHR 0xD9, CHR 0x85, CHR 0xD8, CHR 0xAF,
     CHR 0xD8, CHR 0xB1, CHR 0xD8, CHR 0xB3, CHR 0xDB, CHR 0x90, CHR 0x20, CHR 0xD8, CHR 0xA7,
     CHR 0xD9, CHR 0x88, CHR 0xD9, CHR 0x86, CHR 0xDB, CHR 0x8C, CHR 0xD8, CHR 0xB2, CHR 0x20,
     CHR 0xD9, CHR 0x85, CHR 0xD9, CHR 0x87, CHR 0xD8, CHR 0xA7, CHR 0xD9, CHR 0x84, CHR 0x20,
     CHR 0xD9, CHR 0x88, CHR 0xDB, CHR 0x8C, CHR 0xD8, CHR 0xB4]"

definition print_subtitle :: string where
  "print_subtitle = [CHR 0xDA, CHR 0x9A, CHR 0xD9, CHR 0x88, CHR 0xD9, CHR 0x88, CHR 0xD9,
     CHR 0x86, CHR 0xDB, CHR 0x8C, CHR 0xD8, CHR 0xB2, CHR 0x20, CHR 0xDA, CHR 0xA9, CHR 0xD8,
     CHR 0xA7, CHR 0xD9, CHR 0x84, CHR 0x20, CHR 0xDB, CHR 0xB1, CHR 0xDB, CHR 0xB4, CHR 0xDB,
     CHR 0xB0, CHR 0xDB, CHR 0xB3, CHR 0x2D, CHR 0xDB, CHR 0xB1, CHR 0xDB, CHR 0xB4, CHR 0xDB,
     CHR 0xB0, CHR 0xDB, CHR 0xB4]"

definition print_footerText :: string where
  "print_footerText = [CHR 0xD8, CHR 0xAF, CHR 0x20, CHR 0xD9, CHR 0x85, CHR 0xD8, CHR 0xAF,
     CHR 0xD8, CHR 0xB1, CHR 0xD8, CHR 0xB3, CHR 0xDB, CHR 0x90, CHR 0x20, CHR 0xD8, CHR 0xA7,
     CHR 0xD8, CHR 0xAF, CHR 0xD8, CHR 0xA7, CHR 0xD8, CHR 0xB1, CHR 0xD9, CHR 0x87]"

definition print_watermarkText :: string where
  "print_watermarkText = [CHR 0xD9, CHR 0x85, CHR 0xD8, CHR 0xB3, CHR 0xD9, CHR 0x88, CHR 0xD8,
     CHR 0xAF, CHR 0xD9, CHR 0x87]"

definition DEFAULT_STATE :: "'e imported \<Rightarrow> AppState" where
  "DEFAULT_STATE U = \<lparr>
     teachers = [
       \<lparr>id_T = ''t1'', name_T = teacher_1_name, color = COLORS U 6\<rparr>,
       \<lparr>id_T = ''t2'', name_T = teacher_2_name, color = COLORS U 10\<rparr>],
     classes = [
       \<lparr>id_C = ''c1'', name_C = class_1_name\<rparr>,
       \<lparr>id_C = ''c2'', name_C = class_2_name\<rparr>],
     schedule = empty_object,
     settings = \<lparr>lessonDuration = 45, breakDuration = 15, lessonsBeforeBreak = 2,
       startTime = ''08:00'', totalLessons = 6\<rparr>,
     design = fmap_of_list [
       (''lesson'', JObj (fmap_of_list [
          (''borderColor'', JStr ''#cbd5e1''), (''backgroundColor'', JStr ''#ffffff''),
          (''borderWidth'', JNum 1), (''borderRadius'', JNum 8), (''margin'', JNum 4),
          (''borderStyle'', JStr ''solid''), (''shadow'', JStr ''none''),
          (''fontSize'', JNum 13)])),
       (''break'', JObj (fmap_of_list [
          (''borderColor'', JStr ''#e2e8f0''), (''backgroundColor'', JStr ''#f8fafc''),
          (''borderWidth'', JNum 0), (''borderRadius'', JNum 8), (''margin'', JNum 4),
          (''borderStyle'', JStr ''none''), (''shadow'', JStr ''inner'')]))],
     ui = fmap_of_list [
       (''theme'', JStr ''system''), (''primaryColor'', JStr ''#6366f1''),
       (''language'', JStr ''ps'')],
     printDesign = fmap_of_list [
       (''title'', JStr print_title), (''subtitle'', JStr print_subtitle),
       (''footerText'', JStr print_footerText), (''watermarkText'', JStr print_watermarkText),
       (''showLegend'', JBool True), (''showTeacherName'', JBool True),
       (''showTimes'', JBool True), (''showFooter'', JBool True),
       (''showWatermark'', JBool False),
       (''scale'', JNum 100), (''paddingX'', JNum 40), (''paddingY'', JNum 40),
       (''direction'', JStr ''rtl''),
       (''theme'', JStr ''classic''), (''primaryColor'', JStr ''#1e293b''),
       (''headerStyle'', JStr ''solid''), (''fontStyle'', JStr ''normal''),
       (''fontSizeTitle'', JNum 32), (''fontSizeSubtitle'', JNum 18),
       (''fontSizeHeader'', JNum 14), (''fontSizeSubject'', JNum 14),
       (''fontSizeTeacher'', JNum 11),
       (''teacherDisplayMode'', JStr ''badge''), (''cellMinHeight'', JNum 90),
       (''cellVerticalAlign'', JStr ''center''), (''cellGap'', JNum 6),
       (''cellPadding'', JNum 4)]
   \<rparr>"

section \<open>The reducers\<close>

subsection \<open>\<open>appReducer\<close>\<close>

text \<open>
  \<open>reducer\<close> compares the state \<open>appReducer\<close> returns with the one it passed in by object
  identity (\<open>newPresent === present\<close>). The result of \<open>appReducer\<close> therefore says whether it
  is the very object it was given (\<open>SameObject\<close>: the source's \<open>return state\<close>) or a newly built
  one (\<open>NewObject\<close>: the source's \<open>return { ...state, ... }\<close>), whatever its contents.
\<close>

datatype 'a returned = SameObject | NewObject 'a

subsubsection \<open>Indexing a plain object\<close>

text \<open>
  The string-keyed properties of \<open>Object.prototype\<close>: eleven functions and the accessor
  \<open>__proto__\<close>.
\<close>

definition inherited_function_names :: "string list" where
  "inherited_function_names =
     [''constructor'', ''hasOwnProperty'', ''isPrototypeOf'', ''propertyIsEnumerable'',
      ''toLocaleString'', ''toString'', ''valueOf'', ''__defineGetter__'',
      ''__defineSetter__'', ''__lookupGetter__'', ''__lookupSetter__'']"

definition inherited_names :: "string list" where
  "inherited_names = ''__proto__'' # inherited_function_names"

text \<open>\<open>{ ...obj }\<close>: a new plain object with the own properties of \<open>obj\<close>.\<close>

definition spread :: "Schedule \<Rightarrow> Schedule" where
  "spread obj = \<lparr>entries = entries obj, proto = ObjectPrototype\<rparr>"

text \<open>
  \<open>obj[k]\<close> on an object whose prototype is \<open>Object.prototype\<close>, as every spread copy is
  when the reducers read it: the own property if there is one; otherwise, for \<open>__proto__\<close>,
  the prototype, and for the name of a function of \<open>Object.prototype\<close>, that function;
  otherwise \<open>undefined\<close> (\<open>None\<close>). Every value found is an object or a function and so is
  truthy; only \<open>undefined\<close> is falsy.
\<close>

definition get_property :: "Schedule \<Rightarrow> string \<Rightarrow> slot_value option" where
  "get_property obj k =
     (case fmlookup (entries obj) k of
        Some v \<Rightarrow> Some v
      | None \<Rightarrow>
          if k = ''__proto__'' then Some (proto obj)
          else if k \<in> set inherited_function_names then Some (PrototypeFunction k)
          else None)"

text \<open>
  \<open>obj[k] = v\<close> for a value \<open>v\<close> that is an object or a function: an own property is
  updated; without an own property \<open>__proto__\<close> the assignment runs the setter of
  \<open>Object.prototype\<close>, which makes \<open>v\<close> the prototype and adds no property; any other name
  becomes a new own property (the inherited functions are writable data properties and do
  not stand in the way).
\<close>

definition set_property :: "Schedule \<Rightarrow> string \<Rightarrow> slot_value \<Rightarrow> Schedule" where
  "set_property obj k v =
     (if k = ''__proto__'' \<and> fmlookup (entries obj) k = None then obj\<lparr>proto := v\<rparr>
      else obj\<lparr>entries := fmupd k v (entries obj)\<rparr>)"

text \<open>\<open>delete obj[k]\<close>: removes an own property; inherited names are not affected.\<close>

definition delete_property :: "Schedule \<Rightarrow> string \<Rightarrow> Schedule" where
  "delete_property obj k = obj\<lparr>entries := fmdrop k (entries obj)\<rparr>"

text \<open>\<open>Object.keys(obj)\<close>: every own key once. The order plays no role in what follows.\<close>

definition Object_keys :: "Schedule \<Rightarrow> string list" where
  "Object_keys obj = sorted_list_of_fset (fmdom (entries obj))"

text \<open>\<open>v.teacherId\<close>: the field of a placement; \<open>undefined\<close> (\<open>None\<close>) on a built-in value.\<close>

fun teacherId_of :: "slot_value \<Rightarrow> string option" where
  "teacherId_of (Lesson l) = Some (teacherId l)"
| "teacherId_of (PrototypeFunction name) = None"
| "teacherId_of ObjectPrototype = None"

text \<open>\<open>s.startsWith(p)\<close>\<close>

definition startsWith :: "string \<Rightarrow> string \<Rightarrow> bool" where
  "startsWith s p = (take (length p) s = p)"

text \<open>\<open>{ ...settings, ...payload }\<close> for a partial payload: the fields it has win.\<close>

definition spread_settings :: "TimeSettings \<Rightarrow> TimeSettings_partial \<Rightarrow> TimeSettings" where
  "spread_settings s p = \<lparr>
     lessonDuration = (case lessonDuration_opt p of None \<Rightarrow> lessonDuration s | Some v \<Rightarrow> v),
     breakDuration = (case breakDuration_opt p of None \<Rightarrow> breakDuration s | Some v \<Rightarrow> v),
     lessonsBeforeBreak =
       (case lessonsBeforeBreak_opt p of None \<Rightarrow> lessonsBeforeBreak s | Some v \<Rightarrow> v),
     startTime = (case startTime_opt p of None \<Rightarrow> startTime s | Some v \<Rightarrow> v),
     totalLessons = (case totalLessons_opt p of None \<Rightarrow> totalLessons s | Some v \<Rightarrow> v)\<rparr>"

text \<open>
  The body of the \<open>forEach\<close> of \<open>DELETE_TEACHER\<close>:
  \<open>if (newSchedT[k].teacherId === action.payload) delete newSchedT[k]\<close>.
  Every key the loop visits is still in the object when it is visited, so the lookup
  finds an own entry; the \<open>None\<close> branch is never taken. A built-in value has no
  \<open>teacherId\<close> and is kept.
\<close>

definition delete_teacher_step :: "string \<Rightarrow> string \<Rightarrow> Schedule \<Rightarrow> Schedule" where
  "delete_teacher_step payload k newSchedT =
     (case get_property newSchedT k of
        None \<Rightarrow> newSchedT
      | Some v \<Rightarrow>
          if teacherId_of v = Some payload then delete_property newSchedT k else newSchedT)"

text \<open>
  The body of the \<open>forEach\<close> of \<open>DELETE_CLASS\<close>:
  \<open>if (k.startsWith(`${action.payload}_`)) delete newSchedC[k]\<close>.
\<close>

definition delete_class_step :: "string \<Rightarrow> string \<Rightarrow> Schedule \<Rightarrow> Schedule" where
  "delete_class_step payload k newSchedC =
     (if startsWith k (payload @ ''_'') then delete_property newSchedC k else newSchedC)"

fun appReducer :: "'e imported \<Rightarrow> AppState \<Rightarrow> Action \<Rightarrow> 'e + AppState returned" where
  "appReducer U state (ADD_TEACHER payload) =
     Inr (NewObject (state\<lparr>teachers := teachers state @ [payload]\<rparr>))"
| "appReducer U state (UPDATE_TEACHER payload) =
     Inr (NewObject (state\<lparr>teachers :=
       map (\<lambda>t. if id_T t = id_T payload then payload else t) (teachers state)\<rparr>))"
| "appReducer U state (DELETE_TEACHER payload) =
     (let newSchedT = spread (schedule state);
          newSchedT = fold (delete_teacher_step payload) (Object_keys newSchedT) newSchedT
      in Inr (NewObject (state\<lparr>
           teachers := filter (\<lambda>t. id_T t \<noteq> payload) (teachers state),
           schedule := newSchedT\<rparr>)))"
| "appReducer U state (ADD_CLASS payload) =
     Inr (NewObject (state\<lparr>classes := classes state @ [payload]\<rparr>))"
| "appReducer U state (UPDATE_CLASS payload) =
     Inr (NewObject (state\<lparr>classes :=
       map (\<lambda>c. if id_C c = id_C payload then payload else c) (classes state)\<rparr>))"
| "appReducer U state (DELETE_CLASS payload) =
     (let newSchedC = spread (schedule state);
          newSchedC = fold (delete_class_step payload) (Object_keys newSchedC) newSchedC
      in Inr (NewObject (state\<lparr>
           classes := filter (\<lambda>c. id_C c \<noteq> payload) (classes state),
           schedule := newSchedC\<rparr>)))"
| "appReducer U state (UPDATE_SETTINGS payload) =
     Inr (NewObject (state\<lparr>settings := spread_settings (settings state) payload\<rparr>))"
| "appReducer U state (UPDATE_DESIGN payload) =
     Inr (NewObject (state\<lparr>design := design state ++\<^sub>f payload\<rparr>))"
| "appReducer U state (UPDATE_PRINT_DESIGN payload) =
     Inr (NewObject (state\<lparr>printDesign := printDesign state ++\<^sub>f payload\<rparr>))"
| "appReducer U state (UPDATE_UI payload) =
     Inr (NewObject (state\<lparr>ui := ui state ++\<^sub>f payload\<rparr>))"
| "appReducer U state (SET_LESSON key data) =
     (let newSchedule = spread (schedule state);
          newSchedule =
            (case data of
               None \<Rightarrow> delete_property newSchedule key
             | Some d \<Rightarrow> set_property newSchedule key (Lesson d))
      in Inr (NewObject (state\<lparr>schedule := newSchedule\<rparr>)))"
| "appReducer U state (MOVE_LESSON fromKey toKey) =
     (let schedCopy = spread (schedule state);
          itemToMove = get_property schedCopy fromKey;
          itemAtTarget = get_property schedCopy toKey
      in case itemToMove of
           None \<Rightarrow> Inr SameObject
         | Some moved \<Rightarrow>
             (let schedCopy = set_property schedCopy toKey moved;
                  schedCopy =
                    (case itemAtTarget of
                       Some target \<Rightarrow> set_property schedCopy fromKey target
                     | None \<Rightarrow> delete_property schedCopy fromKey)
              in Inr (NewObject (state\<lparr>schedule := schedCopy\<rparr>))))"
| "appReducer U state OPTIMIZE_SCHEDULE =
     (case calculateTimeSlots U (settings state) of
        Inl e \<Rightarrow> Inl e
      | Inr slots \<Rightarrow>
          (case runOptimization U (schedule state) (classes state) slots of
             Inl e \<Rightarrow> Inl e
           | Inr optimizedSchedule \<Rightarrow>
               Inr (NewObject (state\<lparr>schedule := optimizedSchedule\<rparr>))))"
| "appReducer U state (REPLACE_SCHEDULE payload) =
     Inr (NewObject (state\<lparr>schedule := payload\<rparr>))"
| "appReducer U state action = Inr SameObject"

subsection \<open>\<open>reducer\<close>: the history wrapper\<close>

definition isUndoable :: "Action \<Rightarrow> bool" where
  "isUndoable action =
     (type_of action \<in>
        set [''SET_LESSON'', ''MOVE_LESSON'', ''REPLACE_SCHEDULE'', ''OPTIMIZE_SCHEDULE''])"

text \<open>The \<open>default\<close> branch of \<open>reducer\<close>.\<close>

definition reducer_default ::
  "'e imported \<Rightarrow> HistoryState \<Rightarrow> Action \<Rightarrow> 'e + HistoryState" where
  "reducer_default U state action =
     (case appReducer U (present state) action of
        Inl e \<Rightarrow> Inl e
      | Inr SameObject \<Rightarrow> Inr state
      | Inr (NewObject newPresent) \<Rightarrow>
          if isUndoable action then
            (let updatedPast = past state @ [schedule (present state)];
                 updatedPast =
                   (if length updatedPast > HISTORY_LIMIT then tl updatedPast else updatedPast)
             in Inr \<lparr>past = updatedPast, present = newPresent, future = []\<rparr>)
          else Inr (state\<lparr>present := newPresent\<rparr>))"

fun reducer :: "'e imported \<Rightarrow> HistoryState \<Rightarrow> Action \<Rightarrow> 'e + HistoryState" where
  "reducer U state (INIT payload) =
     (case deepMerge U (DEFAULT_STATE U) payload of
        Inl e \<Rightarrow> Inl e
      | Inr safeState \<Rightarrow> Inr \<lparr>past = [], present = safeState, future = []\<rparr>)"
| "reducer U state RESET_PROJECT =
     Inr \<lparr>past = [],
          present = (DEFAULT_STATE U)\<lparr>teachers := [], classes := [], schedule := empty_object,
            ui := ui (present state)\<rparr>,
          future = []\<rparr>"
| "reducer U state UNDO =
     (if length (past state) = 0 then Inr state
      else
        (let prevSchedule = last (past state)
         in Inr \<lparr>past = butlast (past state),
                 present = (present state)\<lparr>schedule := prevSchedule\<rparr>,
                 future = schedule (present state) # future state\<rparr>))"
| "reducer U state REDO =
     (if length (future state) = 0 then Inr state
      else
        (let nextSchedule = hd (future state)
         in Inr \<lparr>past = past state @ [schedule (present state)],
                 present = (present state)\<lparr>schedule := nextSchedule\<rparr>,
                 future = tl (future state)\<rparr>))"
| "reducer U state action = reducer_default U state action"

subsection \<open>Dispatching a sequence of actions\<close>

text \<open>
  The store after the actions of a list have been dispatched one after the other. An
  exception thrown by one dispatch ends the run.
\<close>

fun dispatch_all :: "'e imported \<Rightarrow> HistoryState \<Rightarrow> Action list \<Rightarrow> 'e + HistoryState" where
  "dispatch_all U state [] = Inr state"
| "dispatch_all U state (action # actions) =
     (case reducer U state action of
        Inl e \<Rightarrow> Inl e
      | Inr state' \<Rightarrow> dispatch_all U state' actions)"

text \<open>
  A run in which every action is a recorded undoable mutation: the action is of an
  undoable kind, \<open>appReducer\<close> returns a new object, and nothing throws. The result is the
  list of the schedules that were current before each action, oldest first, and the final
  store; \<open>None\<close> when some action of the list is not recorded.
\<close>

fun record_run ::
  "'e imported \<Rightarrow> HistoryState \<Rightarrow> Action list \<Rightarrow> (Schedule list \<times> HistoryState) option" where
  "record_run U state [] = Some ([], state)"
| "record_run U state (action # actions) =
     (if isUndoable action then
        (case appReducer U (present state) action of
           Inr (NewObject newPresent) \<Rightarrow>
             (case reducer U state action of
                Inl e \<Rightarrow> None
              | Inr state' \<Rightarrow>
                  (case record_run U state' actions of
                     None \<Rightarrow> None
                   | Some (snapshots, final) \<Rightarrow>
                       Some (schedule (present state) # snapshots, final)))
         | _ \<Rightarrow> None)
      else None)"

subsection \<open>\<open>initData\<close>: the initial store\<close>

text \<open>
  The \<open>try\<close> block of \<open>initData\<close>. Its argument is the outcome of
  \<open>localStorage.getItem(STORAGE_KEY)\<close>: an exception, \<open>null\<close> (\<open>None\<close>) or the stored text.
  The block throws (\<open>Inl\<close>), returns a store (\<open>Inr (Some h)\<close>), or is left without a
  \<open>return\<close> (\<open>Inr None\<close>) when \<open>local\<close> is falsy, that is \<open>null\<close> or the empty string.
\<close>

definition initData_try ::
  "'e imported \<Rightarrow> 'e + string option \<Rightarrow> 'e + HistoryState option" where
  "initData_try U getItem =
     (case getItem of
        Inl e \<Rightarrow> Inl e
      | Inr local \<Rightarrow>
          (case local of
             None \<Rightarrow> Inr None
           | Some text \<Rightarrow>
               if text = [] then Inr None
               else
                 (case JSON_parse U text of
                    Inl e \<Rightarrow> Inl e
                  | Inr parsed \<Rightarrow>
                      (case deepMerge U (DEFAULT_STATE U) parsed of
                         Inl e \<Rightarrow> Inl e
                       | Inr mergedState \<Rightarrow>
                           Inr (Some \<lparr>past = [], present = mergedState, future = []\<rparr>)))))"

text \<open>
  \<open>initData\<close>: the \<open>catch\<close> logs the exception and falls through to the final \<open>return\<close> of
  the default store.
\<close>

definition initData :: "'e imported \<Rightarrow> 'e + string option \<Rightarrow> 'e + HistoryState" where
  "initData U getItem =
     (case initData_try U getItem of
        Inr (Some h) \<Rightarrow> Inr h
      | Inr None \<Rightarrow> Inr \<lparr>past = [], present = DEFAULT_STATE U, future = []\<rparr>
      | Inl e \<Rightarrow> Inr \<lparr>past = [], present = DEFAULT_STATE U, future = []\<rparr>)"

section \<open>The time grid calculator\<close>

text \<open>
  \<open>calculateTimeSlots\<close> is defined in \<open>./utils\<close>, which is not in the sources at hand. The
  definitions of this section follow section 4.1 of the specification, which calls the
  function \<open>computeSlots\<close>, and the scenario of its section 8.
\<close>

text \<open>Modelled from the spec: the error kind of invalid time settings (\<open>ConfigurationError\<close>).\<close>

datatype slot_error = ConfigurationError

text \<open>
  Modelled from the spec: the value of a decimal digit, for reading a start time written
  \<open>HH:MM\<close>; \<open>None\<close> for any other character.
\<close>

definition digit_value :: "char \<Rightarrow> nat option" where
  "digit_value c =
     (if CHR ''0'' \<le> c \<and> c \<le> CHR ''9'' then Some (of_char c - of_char (CHR ''0'')) else None)"

text \<open>
  Modelled from the spec: a start time \<open>HH:MM\<close> (two digits, a colon, two digits, at most
  \<open>23:59\<close>) as minutes after midnight; \<open>None\<close> when the text is not of this form (the
  specification's invalid or unparseable start time).
\<close>

definition parseTime :: "string \<Rightarrow> int option" where
  "parseTime t =
     (case t of
        [h1, h2, c, m1, m2] \<Rightarrow>
          (case (digit_value h1, digit_value h2, digit_value m1, digit_value m2) of
             (Some a, Some b, Some x, Some y) \<Rightarrow>
               if c = CHR '':'' \<and> 10 * a + b < 24 \<and> 10 * x + y < 60
               then Some (int ((10 * a + b) * 60 + (10 * x + y)))
               else None
           | _ \<Rightarrow> None)
      | _ \<Rightarrow> None)"

text \<open>
  Modelled from the spec: the slots for the \<open>remaining\<close> lessons, when \<open>i\<close> lessons have been
  laid out, the next slot starts at minute \<open>t\<close> and has ordinal \<open>idx\<close>. A lesson slot lasts
  \<open>lessonDuration\<close> minutes. A break slot of \<open>breakDuration\<close> minutes follows a lesson when
  the number of lessons laid out so far is a multiple of \<open>lessonsBeforeBreak\<close> and a lesson
  is still to come (the scenario has no break after the last lesson). Each slot starts
  when the one before it ends.
\<close>

fun slots_from :: "TimeSettings \<Rightarrow> nat \<Rightarrow> nat \<Rightarrow> int \<Rightarrow> nat \<Rightarrow> TimeSlot list" where
  "slots_from s 0 i t idx = []"
| "slots_from s (Suc remaining) i t idx =
     (let lesson = \<lparr>index = idx, startMinute = t, endMinute = t + lessonDuration s,
            isBreak = False\<rparr>;
          pause = \<lparr>index = idx + 1, startMinute = t + lessonDuration s,
            endMinute = t + lessonDuration s + breakDuration s, isBreak = True\<rparr>
      in if Suc i mod nat (lessonsBeforeBreak s) = 0 \<and> remaining > 0
         then lesson # pause #
           slots_from s remaining (Suc i) (t + lessonDuration s + breakDuration s) (idx + 2)
         else lesson # slots_from s remaining (Suc i) (t + lessonDuration s) (idx + 1))"

text \<open>
  Modelled from the spec: \<open>computeSlots\<close>. It fails with \<open>ConfigurationError\<close> on a start
  time that cannot be read and on durations outside the ranges of the data model (a lesson
  duration that is not positive, a negative break duration: the data model allows a break
  of 0 minutes); otherwise it lays out \<open>totalLessons\<close> lessons from the start time.
\<close>

definition computeSlots :: "TimeSettings \<Rightarrow> slot_error + TimeSlot list" where
  "computeSlots s =
     (case parseTime (startTime s) of
        None \<Rightarrow> Inl ConfigurationError
      | Some t0 \<Rightarrow>
          if lessonDuration s \<le> 0 \<or> breakDuration s < 0 then Inl ConfigurationError
          else Inr (slots_from s (nat (totalLessons s)) 0 t0 0))"

text \<open>
  Modelled from the spec: the valid \<open>TimeSettings\<close> of the data model (section 3):
  \<open>lessonDuration > 0\<close>, \<open>breakDuration \<ge> 0\<close>, \<open>lessonsBeforeBreak \<ge> 1\<close>, \<open>totalLessons \<ge> 1\<close>,
  and a start time of the form \<open>HH:MM\<close>.
\<close>

definition valid_settings :: "TimeSettings \<Rightarrow> bool" where
  "valid_settings s =
     (lessonDuration s > 0 \<and> breakDuration s \<ge> 0 \<and> lessonsBeforeBreak s \<ge> 1 \<and>
      totalLessons s \<ge> 1 \<and> parseTime (startTime s) \<noteq> None)"

text \<open>
  A list of slots is contiguous from minute \<open>t\<close>: the first starts at \<open>t\<close>, and each of the
  others starts when the one before it ends.
\<close>

fun contiguous_from :: "int \<Rightarrow> TimeSlot list \<Rightarrow> bool" where
  "contiguous_from t [] = True"
| "contiguous_from t (x # xs) = (startMinute x = t \<and> contiguous_from (endMinute x) xs)"

section \<open>Notions the properties are stated with\<close>

text \<open>The state \<open>appReducer\<close> hands back to \<open>reducer\<close>, given the state it was called with.\<close>

fun returned_state :: "AppState \<Rightarrow> AppState returned \<Rightarrow> AppState" where
  "returned_state state SameObject = state"
| "returned_state state (NewObject newState) = newState"

text \<open>
  Modelled from the spec: the composite key of a schedule entry, \<open>classId_day_period\<close>.
  The code that builds the keys is in the grid components, which are not in the sources at
  hand; \<open>appReducer\<close> itself only tests keys for the prefix \<open>classId_\<close>.
\<close>

definition slotKey :: "string \<Rightarrow> string \<Rightarrow> string \<Rightarrow> string" where
  "slotKey classId day period = classId @ ''_'' @ day @ ''_'' @ period"

text \<open>
  The mutations outside the history: teacher and class add, update and delete, and the
  updates of settings, design, print design and UI.
\<close>

definition isNonUndoableMutation :: "Action \<Rightarrow> bool" where
  "isNonUndoableMutation action =
     (type_of action \<in> set [''ADD_TEACHER'', ''UPDATE_TEACHER'', ''DELETE_TEACHER'',
        ''ADD_CLASS'', ''UPDATE_CLASS'', ''DELETE_CLASS'', ''UPDATE_SETTINGS'',
        ''UPDATE_DESIGN'', ''UPDATE_PRINT_DESIGN'', ''UPDATE_UI''])"

text \<open>
  A key that indexes a schedule object as a dictionary would: it is an own property of the
  object, or it is none of the names a plain object inherits from \<open>Object.prototype\<close>.
\<close>

definition dictionary_key :: "Schedule \<Rightarrow> string \<Rightarrow> bool" where
  "dictionary_key obj k = (fmlookup (entries obj) k \<noteq> None \<or> k \<notin> set inherited_names)"

text \<open>The two stacks together hold at most \<open>HISTORY_LIMIT\<close> snapshots.\<close>

definition history_bounded :: "HistoryState \<Rightarrow> bool" where
  "history_bounded st = (length (past st) + length (future st) \<le> HISTORY_LIMIT)"

section \<open>Sample inputs\<close>

text \<open>
  A sample instance of the imports, used to evaluate the theorems below on concrete inputs:
  a palette of one colour, a slot calculator that returns no slots, an optimiser that
  returns the schedule it is given, a merge that takes over the \<open>ui\<close> object of the payload
  and nothing else, and a parser that reads two texts only: \<open>{}\<close> and \<open>sample_text\<close>.
\<close>

datatype sample_exception = SyntaxError

text \<open>The text \<open>{"ui":{"language":"en"}}\<close>, byte by byte, and the value it denotes.\<close>

definition sample_text :: string where
  "sample_text = [CHR 0x7B, CHR 0x22, CHR 0x75, CHR 0x69, CHR 0x22, CHR 0x3A, CHR 0x7B,
     CHR 0x22, CHR 0x6C, CHR 0x61, CHR 0x6E, CHR 0x67, CHR 0x75, CHR 0x61, CHR 0x67, CHR 0x65,
     CHR 0x22, CHR 0x3A, CHR 0x22, CHR 0x65, CHR 0x6E, CHR 0x22, CHR 0x7D, CHR 0x7D]"

definition sample_payload :: jsval where
  "sample_payload = JObj (fmupd ''ui'' (JObj (fmupd ''language'' (JStr ''en'') fmempty)) fmempty)"

definition sample_imports :: "sample_exception imported" where
  "sample_imports = \<lparr>
     COLORS = (\<lambda>i. ''#3b82f6''),
     calculateTimeSlots = (\<lambda>settings. Inr []),
     runOptimization = (\<lambda>schedule classes slots. Inr schedule),
     deepMerge = (\<lambda>target source.
       (case source of
          JObj obj \<Rightarrow>
            (case fmlookup obj ''ui'' of
               Some (JObj u) \<Rightarrow> Inr (target\<lparr>ui := ui target ++\<^sub>f u\<rparr>)
             | _ \<Rightarrow> Inr target)
        | _ \<Rightarrow> Inr target)),
     JSON_parse = (\<lambda>text.
       if text = ''{}'' then Inr (JObj fmempty)
       else if text = sample_text then Inr sample_payload
       else Inl SyntaxError)\<rparr>"

definition lesson_a :: LessonData where
  "lesson_a = \<lparr>teacherId = ''t1'', subject = ''maths''\<rparr>"

definition lesson_b :: LessonData where
  "lesson_b = \<lparr>teacherId = ''t2'', subject = ''history''\<rparr>"

definition sample_schedule :: Schedule where
  "sample_schedule =
     \<lparr>entries = fmupd ''c2_0_0'' (Lesson lesson_b) (fmupd ''c1_0_0'' (Lesson lesson_a) fmempty),
      proto = ObjectPrototype\<rparr>"

definition sample_state :: AppState where
  "sample_state = (DEFAULT_STATE sample_imports)\<lparr>schedule := sample_schedule\<rparr>"

definition sample_store :: HistoryState where
  "sample_store = \<lparr>past = [empty_object], present = sample_state, future = []\<rparr>"

definition fresh_store :: HistoryState where
  "fresh_store = \<lparr>past = [], present = sample_state, future = []\<rparr>"

text \<open>A family of pairwise different schedules.\<close>

definition numbered_schedule :: "nat \<Rightarrow> Schedule" where
  "numbered_schedule n =
     \<lparr>entries =
        fmupd ''c1_0_0'' (Lesson \<lparr>teacherId = ''t1'', subject = replicate n (CHR ''x'')\<rparr>)
          fmempty,
      proto = ObjectPrototype\<rparr>"

text \<open>A store with an empty \<open>past\<close> and a long \<open>future\<close>.\<close>

definition overfull_store :: HistoryState where
  "overfull_store =
     \<lparr>past = [], present = DEFAULT_STATE sample_imports, future = replicate 101 empty_object\<rparr>"

text \<open>
  The sample schedule after \<open>MOVE_LESSON\<close> from \<open>constructor\<close> to \<open>c1_0_3\<close>: the function
  \<open>Object\<close>, which every plain object inherits under the name \<open>constructor\<close>, sits in the
  slot \<open>c1_0_3\<close>.
\<close>

definition moved_constructor :: Schedule where
  "moved_constructor =
     \<lparr>entries = fmupd ''c1_0_3'' (PrototypeFunction ''constructor'') (entries sample_schedule),
      proto = ObjectPrototype\<rparr>"

text \<open>
  The scenario of the specification: lessons of 45 minutes, breaks of 15 minutes after
  every second lesson, four lessons from 08:00. The expected slots are L1 08:00 to 08:45,
  L2 08:45 to 09:30, a break 09:30 to 09:45, L3 09:45 to 10:30 and L4 10:30 to 11:15.
\<close>

definition scenario_settings :: TimeSettings where
  "scenario_settings = \<lparr>lessonDuration = 45, breakDuration = 15, lessonsBeforeBreak = 2,
     startTime = ''08:00'', totalLessons = 4\<rparr>"

definition scenario_slots :: "TimeSlot list" where
  "scenario_slots =
     [\<lparr>index = 0, startMinute = 480, endMinute = 525, isBreak = False\<rparr>,
      \<lparr>index = 1, startMinute = 525, endMinute = 570, isBreak = False\<rparr>,
      \<lparr>index = 2, startMinute = 570, endMinute = 585, isBreak = True\<rparr>,
      \<lparr>index = 3, startMinute = 585, endMinute = 630, isBreak = False\<rparr>,
      \<lparr>index = 4, startMinute = 630, endMinute = 675, isBreak = False\<rparr>]"

section \<open>The history manager\<close>

subsection \<open>Recording\<close>

lemma reducer_undoable: "isUndoable a \<Longrightarrow> reducer U st a = reducer_default U st a"
  by (cases a) (simp_all add: isUndoable_def)

lemma reducer_recorded:
  assumes "isUndoable a" and "appReducer U (present st) a = Inr (NewObject np)"
  shows "reducer U st a =
    Inr \<lparr>past =
           (if length (past st @ [schedule (present st)]) > HISTORY_LIMIT
            then tl (past st @ [schedule (present st)])
            else past st @ [schedule (present st)]),
         present = np, future = []\<rparr>"
  using assms by (simp add: reducer_undoable reducer_default_def Let_def)

lemma trimmed_nonempty:
  "(if length (p @ [s]) > HISTORY_LIMIT then tl (p @ [s]) else p @ [s]) \<noteq> []"
  by (cases p) (simp_all add: HISTORY_LIMIT_def)

lemma trimmed_last:
  "last (if length (p @ [s]) > HISTORY_LIMIT then tl (p @ [s]) else p @ [s]) = s"
  by (cases p) (simp_all add: HISTORY_LIMIT_def)

lemma undo_after_record:
  assumes "isUndoable a" and "appReducer U (present st) a = Inr (NewObject np)"
  shows "\<exists>st1 st2. reducer U st a = Inr st1 \<and> reducer U st1 UNDO = Inr st2 \<and>
           schedule (present st2) = schedule (present st)"
proof -
  define up where "up = (if length (past st @ [schedule (present st)]) > HISTORY_LIMIT
       then tl (past st @ [schedule (present st)]) else past st @ [schedule (present st)])"
  have up: "up \<noteq> []" "last up = schedule (present st)"
    unfolding up_def by (rule trimmed_nonempty, rule trimmed_last)
  have 1: "reducer U st a = Inr \<lparr>past = up, present = np, future = []\<rparr>"
    unfolding up_def using assms by (rule reducer_recorded)
  have 2: "reducer U \<lparr>past = up, present = np, future = []\<rparr> UNDO =
      Inr \<lparr>past = butlast up, present = np\<lparr>schedule := schedule (present st)\<rparr>,
        future = [schedule np]\<rparr>"
    using up by simp
  show ?thesis using 1 2 by simp
qed

lemma redo_after_undo:
  assumes "past st \<noteq> []"
  shows "\<exists>st1. reducer U st UNDO = Inr st1 \<and> reducer U st1 REDO = Inr st"
  using assms by (simp add: Let_def)

subsection \<open>Undo and redo\<close>

text \<open>
  Claim C1. Undo right after a recorded undoable mutation (an action of an undoable kind
  for which \<open>appReducer\<close> built a new state) brings back the schedule that was current before
  the mutation. Redo right after an undo that found a snapshot brings back the whole store,
  hence the schedule the undo had removed. Undo on an empty \<open>past\<close> and redo on an empty
  \<open>future\<close> return the store unchanged.
\<close>

theorem undo_redo_round_trip:
  "(isUndoable a \<and> appReducer U (present st) a = Inr (NewObject np) \<longrightarrow>
      (\<exists>st1 st2. reducer U st a = Inr st1 \<and> reducer U st1 UNDO = Inr st2 \<and>
         schedule (present st2) = schedule (present st)))
   \<and> (past st \<noteq> [] \<longrightarrow>
      (\<exists>st1. reducer U st UNDO = Inr st1 \<and> reducer U st1 REDO = Inr st))
   \<and> (past st = [] \<longrightarrow> reducer U st UNDO = Inr st)
   \<and> (future st = [] \<longrightarrow> reducer U st REDO = Inr st)"
  using undo_after_record [of a U st np] redo_after_undo [of st U] by simp

theorem undo_redo_round_trip_witness:
  "isUndoable (SET_LESSON ''c1_0_1'' (Some lesson_b))
   \<and> appReducer sample_imports (present sample_store) (SET_LESSON ''c1_0_1'' (Some lesson_b)) =
       Inr (NewObject (sample_state\<lparr>schedule := set_property (spread sample_schedule) ''c1_0_1'' (Lesson lesson_b)\<rparr>))
   \<and> past sample_store \<noteq> []
   \<and> past (sample_store\<lparr>past := []\<rparr>) = []
   \<and> future sample_store = []
   \<and> (\<exists>st1 st2. reducer sample_imports sample_store (SET_LESSON ''c1_0_1'' (Some lesson_b)) = Inr st1 \<and>
         reducer sample_imports st1 UNDO = Inr st2 \<and>
         schedule (present st2) = schedule (present sample_store))
   \<and> (\<exists>st1. reducer sample_imports sample_store UNDO = Inr st1 \<and>
         reducer sample_imports st1 REDO = Inr sample_store)
   \<and> reducer sample_imports (sample_store\<lparr>past := []\<rparr>) UNDO = Inr (sample_store\<lparr>past := []\<rparr>)
   \<and> reducer sample_imports sample_store REDO = Inr sample_store"
proof -
  let ?a = "SET_LESSON ''c1_0_1'' (Some lesson_b)"
  let ?np = "sample_state\<lparr>schedule := set_property (spread sample_schedule) ''c1_0_1'' (Lesson lesson_b)\<rparr>"
  have h1: "isUndoable ?a" by (simp add: isUndoable_def)
  have h2: "appReducer sample_imports (present sample_store) ?a = Inr (NewObject ?np)"
    by (simp add: sample_store_def sample_state_def)
  have h3: "past sample_store \<noteq> []" by (simp add: sample_store_def)
  have h4: "past (sample_store\<lparr>past := []\<rparr>) = []" by simp
  have h5: "future sample_store = []" by (simp add: sample_store_def)
  from undo_redo_round_trip [of ?a sample_imports sample_store ?np] h1 h2 h3 h5
  have c1: "\<exists>st1 st2. reducer sample_imports sample_store ?a = Inr st1 \<and>
         reducer sample_imports st1 UNDO = Inr st2 \<and>
         schedule (present st2) = schedule (present sample_store)"
    and c2: "\<exists>st1. reducer sample_imports sample_store UNDO = Inr st1 \<and>
         reducer sample_imports st1 REDO = Inr sample_store"
    and c4: "reducer sample_imports sample_store REDO = Inr sample_store"
    by blast+
  from undo_redo_round_trip [of ?a sample_imports "sample_store\<lparr>past := []\<rparr>" ?np] h4
  have c3: "reducer sample_imports (sample_store\<lparr>past := []\<rparr>) UNDO = Inr (sample_store\<lparr>past := []\<rparr>)"
    by blast
  show ?thesis using h1 h2 h3 h4 h5 c1 c2 c3 c4 by blast
qed

text \<open>
  Claim C2. When an action of one of the four undoable kinds makes \<open>appReducer\<close> return a
  state whose schedule differs from the current one, \<open>reducer\<close> appends the current schedule
  to \<open>past\<close>, drops the oldest entry if \<open>past\<close> then holds more than \<open>HISTORY_LIMIT\<close> entries,
  empties \<open>future\<close>, and makes the returned state the present one.
\<close>

theorem undoable_change_is_recorded:
  assumes "isUndoable a"
    and "appReducer U (present st) a = Inr r"
    and "schedule (returned_state (present st) r) \<noteq> schedule (present st)"
  shows "reducer U st a =
    Inr \<lparr>past =
           (if length (past st @ [schedule (present st)]) > HISTORY_LIMIT
            then tl (past st @ [schedule (present st)])
            else past st @ [schedule (present st)]),
         present = returned_state (present st) r,
         future = []\<rparr>"
proof (cases r)
  case SameObject
  with assms(3) show ?thesis by simp
next
  case (NewObject np)
  with assms(1,2) show ?thesis by (simp add: reducer_recorded)
qed

theorem undoable_change_is_recorded_witness:
  "isUndoable (REPLACE_SCHEDULE empty_object)
   \<and> appReducer sample_imports (present sample_store) (REPLACE_SCHEDULE empty_object) =
       Inr (NewObject (sample_state\<lparr>schedule := empty_object\<rparr>))
   \<and> schedule (returned_state (present sample_store)
         (NewObject (sample_state\<lparr>schedule := empty_object\<rparr>))) \<noteq> schedule (present sample_store)
   \<and> reducer sample_imports sample_store (REPLACE_SCHEDULE empty_object) =
       Inr \<lparr>past = [empty_object, sample_schedule],
            present = sample_state\<lparr>schedule := empty_object\<rparr>, future = []\<rparr>"
proof -
  let ?a = "REPLACE_SCHEDULE empty_object"
  let ?r = "NewObject (sample_state\<lparr>schedule := empty_object\<rparr>)"
  have h1: "isUndoable ?a" by (simp add: isUndoable_def)
  have h2: "appReducer sample_imports (present sample_store) ?a = Inr ?r"
    by (simp add: sample_store_def)
  have "fmlookup (entries sample_schedule) ''c1_0_0'' \<noteq>
      fmlookup (entries empty_object) ''c1_0_0''"
    by (simp add: sample_schedule_def empty_object_def)
  then have "sample_schedule \<noteq> empty_object" by auto
  then have h3: "schedule (returned_state (present sample_store) ?r) \<noteq> schedule (present sample_store)"
    by (simp add: sample_store_def sample_state_def)
  show ?thesis
    using undoable_change_is_recorded [OF h1 h2 h3] h1 h2 h3
    by (simp add: sample_store_def sample_state_def HISTORY_LIMIT_def)
qed

text \<open>
  Claim C4. On a store with a non-empty \<open>past\<close>, undo returns a store whose present state
  has the teachers, classes, settings, design, UI and print design it had before; likewise
  redo on a store with a non-empty \<open>future\<close>. Only the schedule can differ.
\<close>

theorem undo_redo_frame:
  "(past st \<noteq> [] \<longrightarrow>
      (\<exists>st'. reducer U st UNDO = Inr st' \<and>
         teachers (present st') = teachers (present st) \<and>
         classes (present st') = classes (present st) \<and>
         settings (present st') = settings (present st) \<and>
         design (present st') = design (present st) \<and>
         ui (present st') = ui (present st) \<and>
         printDesign (present st') = printDesign (present st)))
   \<and> (future st \<noteq> [] \<longrightarrow>
      (\<exists>st'. reducer U st REDO = Inr st' \<and>
         teachers (present st') = teachers (present st) \<and>
         classes (present st') = classes (present st) \<and>
         settings (present st') = settings (present st) \<and>
         design (present st') = design (present st) \<and>
         ui (present st') = ui (present st) \<and>
         printDesign (present st') = printDesign (present st)))"
  by (simp add: Let_def)

theorem undo_redo_frame_witness:
  "past sample_store \<noteq> [] \<and> future overfull_store \<noteq> []
   \<and> (\<exists>st'. reducer sample_imports sample_store UNDO = Inr st' \<and>
         teachers (present st') = teachers (present sample_store) \<and>
         classes (present st') = classes (present sample_store) \<and>
         settings (present st') = settings (present sample_store) \<and>
         design (present st') = design (present sample_store) \<and>
         ui (present st') = ui (present sample_store) \<and>
         printDesign (present st') = printDesign (present sample_store))
   \<and> (\<exists>st'. reducer sample_imports overfull_store REDO = Inr st' \<and>
         teachers (present st') = teachers (present overfull_store) \<and>
         classes (present st') = classes (present overfull_store) \<and>
         settings (present st') = settings (present overfull_store) \<and>
         design (present st') = design (present overfull_store) \<and>
         ui (present st') = ui (present overfull_store) \<and>
         printDesign (present st') = printDesign (present overfull_store))"
proof -
  have h1: "past sample_store \<noteq> []" by (simp add: sample_store_def)
  have h2: "future overfull_store \<noteq> []" by (simp add: overfull_store_def)
  show ?thesis
    using undo_redo_frame [of sample_store sample_imports]
      undo_redo_frame [of overfull_store sample_imports] h1 h2
    by blast
qed

text \<open>
  Claim C8. For a teacher or class add, update or delete and for an update of the settings,
  the design, the print design or the UI, \<open>appReducer\<close> builds a new present state and
  \<open>reducer\<close> returns the store with that present state and with \<open>past\<close> and \<open>future\<close> as
  they were.
\<close>

theorem non_undoable_keeps_history:
  assumes "isNonUndoableMutation a"
  shows "\<exists>newPresent st'.
           appReducer U (present st) a = Inr (NewObject newPresent) \<and>
           reducer U st a = Inr st' \<and>
           present st' = newPresent \<and> past st' = past st \<and> future st' = future st"
  using assms
  by (cases a)
    (simp_all add: isNonUndoableMutation_def reducer_default_def isUndoable_def Let_def)

theorem non_undoable_keeps_history_witness:
  "isNonUndoableMutation (DELETE_TEACHER ''t1'')
   \<and> (\<exists>newPresent st'.
         appReducer sample_imports (present sample_store) (DELETE_TEACHER ''t1'') =
           Inr (NewObject newPresent) \<and>
         reducer sample_imports sample_store (DELETE_TEACHER ''t1'') = Inr st' \<and>
         present st' = newPresent \<and>
         past st' = [empty_object] \<and> future st' = [])"
proof -
  have h: "isNonUndoableMutation (DELETE_TEACHER ''t1'')"
    by (simp add: isNonUndoableMutation_def)
  from non_undoable_keeps_history [OF h, of sample_imports sample_store] h
  show ?thesis by (simp add: sample_store_def)
qed

subsection \<open>The bound on the history\<close>

lemma reducer_default_bounded:
  assumes "history_bounded st" and "reducer_default U st a = Inr st'"
  shows "history_bounded st'"
  using assms
  by (auto simp: reducer_default_def history_bounded_def Let_def HISTORY_LIMIT_def
      split: sum.splits returned.splits if_splits)

lemma reducer_bounded:
  assumes "history_bounded st" and "reducer U st a = Inr st'"
  shows "history_bounded st'"
proof (cases a)
  case (INIT p)
  with assms show ?thesis
    by (auto simp: history_bounded_def split: sum.splits)
next
  case UNDO
  with assms show ?thesis
    by (cases "past st") (auto simp: history_bounded_def Let_def split: if_splits)
next
  case REDO
  with assms show ?thesis
    by (cases "future st") (auto simp: history_bounded_def Let_def split: if_splits)
next
  case RESET_PROJECT
  with assms show ?thesis
    by (auto simp: history_bounded_def)
qed (use assms in \<open>auto intro: reducer_default_bounded\<close>)

lemma dispatch_all_bounded:
  "history_bounded st \<Longrightarrow> dispatch_all U st as = Inr st' \<Longrightarrow> history_bounded st'"
proof (induction as arbitrary: st)
  case Nil
  then show ?case by simp
next
  case (Cons a as)
  then show ?case
    by (auto split: sum.splits dest: reducer_bounded)
qed

lemma trimmed_drop:
  assumes "length p \<le> HISTORY_LIMIT"
  shows "(if length (p @ [s]) > HISTORY_LIMIT then tl (p @ [s]) else p @ [s]) =
    drop (length p + 1 - HISTORY_LIMIT) (p @ [s])"
proof (cases "length p = HISTORY_LIMIT")
  case True
  then have "length p + 1 - HISTORY_LIMIT = 1" by simp
  then show ?thesis using True by (simp add: drop_Suc del: drop_append)
next
  case False
  with assms have "length p + 1 - HISTORY_LIMIT = 0" by simp
  then show ?thesis using False assms by simp
qed

lemma record_run_past:
  assumes "length (past st) \<le> HISTORY_LIMIT" and "record_run U st as = Some (snaps, st')"
  shows "dispatch_all U st as = Inr st' \<and> length snaps = length as \<and>
    past st' = drop (length (past st) + length snaps - HISTORY_LIMIT) (past st @ snaps)"
  using assms
proof (induction as arbitrary: st snaps)
  case Nil
  then show ?case by simp
next
  case (Cons a as)
  from Cons.prems(2) obtain np st1 snaps1 where
    u: "isUndoable a" and
    ar: "appReducer U (present st) a = Inr (NewObject np)" and
    r: "reducer U st a = Inr st1" and
    rr: "record_run U st1 as = Some (snaps1, st')" and
    sn: "snaps = schedule (present st) # snaps1"
    by (auto split: if_splits sum.splits returned.splits option.splits)
  let ?s = "schedule (present st)"
  let ?d = "length (past st) + 1 - HISTORY_LIMIT"
  from reducer_recorded [OF u ar] r
  have p1: "past st1 = drop ?d (past st @ [?s])"
    using trimmed_drop [OF Cons.prems(1), of ?s] by simp
  then have l1: "length (past st1) \<le> HISTORY_LIMIT"
    using Cons.prems(1) by simp
  from Cons.IH [OF l1 rr]
  have d: "dispatch_all U st1 as = Inr st'" and ls: "length snaps1 = length as"
    and p: "past st' = drop (length (past st1) + length snaps1 - HISTORY_LIMIT) (past st1 @ snaps1)"
    by simp_all
  have e1: "past st1 @ snaps1 = drop ?d (past st @ snaps)"
    using p1 Cons.prems(1) sn by (simp add: HISTORY_LIMIT_def)
  have e2: "length (past st1) + length snaps1 - HISTORY_LIMIT + ?d
      = length (past st) + length snaps - HISTORY_LIMIT"
    using p1 Cons.prems(1) sn by (auto simp: HISTORY_LIMIT_def)
  have "past st' = drop (length (past st1) + length snaps1 - HISTORY_LIMIT)
      (drop ?d (past st @ snaps))"
    using p e1 by simp
  also have "\<dots> = drop (length (past st) + length snaps - HISTORY_LIMIT) (past st @ snaps)"
    unfolding drop_drop e2 ..
  finally have "past st' =
      drop (length (past st) + length snaps - HISTORY_LIMIT) (past st @ snaps)" .
  with d ls r sn show ?case by simp
qed

lemma record_run_first:
  assumes "record_run U st (a # as) = Some (snaps, st')"
  shows "\<exists>rest. snaps = schedule (present st) # rest"
  using assms by (auto split: if_splits sum.splits returned.splits option.splits)

lemma initData_store:
  "\<exists>p. initData U getItem = Inr \<lparr>past = [], present = p, future = []\<rparr>"
  by (auto simp: initData_def initData_try_def split: sum.splits option.splits)

lemma initData_bounded:
  assumes "initData U getItem = Inr st0"
  shows "past st0 = []" and "history_bounded st0"
  using assms initData_store [of U getItem] by (auto simp: history_bounded_def)

lemma dispatch_all_past_le:
  assumes "history_bounded st" and "dispatch_all U st as = Inr st'"
  shows "length (past st') \<le> 100"
proof -
  have "history_bounded st'" using assms by (rule dispatch_all_bounded)
  then show ?thesis by (simp add: history_bounded_def HISTORY_LIMIT_def)
qed

lemma record_101:
  assumes "past st = []" and "length as = 101" and "record_run U st as = Some (snaps, st')"
  shows "dispatch_all U st as = Inr st' \<and> length (past st') = 100 \<and>
    snaps = schedule (present st) # past st'"
proof -
  from assms(2) obtain a as' where as: "as = a # as'" by (cases as) auto
  from record_run_first [of U st a as' snaps st'] assms(3) as
  obtain rest where sn: "snaps = schedule (present st) # rest" by auto
  have "length (past st) \<le> HISTORY_LIMIT" using assms(1) by simp
  from record_run_past [OF this assms(3)]
  have d: "dispatch_all U st as = Inr st'" and l: "length snaps = length as"
    and p: "past st' = drop (length (past st) + length snaps - HISTORY_LIMIT) (past st @ snaps)"
    by simp_all
  from p l assms(1,2) sn have "past st' = rest" by (simp add: HISTORY_LIMIT_def)
  with d l sn assms(2) show ?thesis by auto
qed

text \<open>
  Claim C3. The initial store, the one \<open>initData\<close> returns, has an empty \<open>past\<close>, and after
  any sequence of actions dispatched from it \<open>past\<close> holds at most 100 snapshots. More
  generally this holds from every store whose \<open>past\<close> and \<open>future\<close> together hold at most
  100 snapshots, which all stores the program reaches do. From a store with an empty
  \<open>past\<close>, 101 recorded undoable mutations in a row leave exactly 100 snapshots in \<open>past\<close>:
  the schedules that were current before the second to the last mutation; the oldest
  snapshot, the initial schedule, is gone.
\<close>

theorem past_never_exceeds_limit:
  "(initData U getItem = Inr st0 \<and> dispatch_all U st0 as = Inr st' \<longrightarrow>
      past st0 = [] \<and> length (past st') \<le> 100)
   \<and> (history_bounded st \<and> dispatch_all U st as = Inr st' \<longrightarrow> length (past st') \<le> 100)
   \<and> (past st = [] \<and> length as = 101 \<and> record_run U st as = Some (snaps, st') \<longrightarrow>
      dispatch_all U st as = Inr st' \<and> length (past st') = 100 \<and>
      snaps = schedule (present st) # past st')"
  using initData_bounded [of U getItem st0] dispatch_all_past_le [of st0 U as st']
    dispatch_all_past_le [of st U as st'] record_101 [of st as U snaps st']
  by blast

lemma record_run_replace:
  "\<exists>st'. record_run U st (map REPLACE_SCHEDULE ss) =
     Some (butlast (schedule (present st) # ss), st')"
proof (induction ss arbitrary: st)
  case Nil
  show ?case by simp
next
  case (Cons s ss)
  let ?np = "(present st)\<lparr>schedule := s\<rparr>"
  have u: "isUndoable (REPLACE_SCHEDULE s)" by (simp add: isUndoable_def)
  have ar: "appReducer U (present st) (REPLACE_SCHEDULE s) = Inr (NewObject ?np)" by simp
  from reducer_recorded [OF u ar] obtain st1 where
    r: "reducer U st (REPLACE_SCHEDULE s) = Inr st1" and p: "present st1 = ?np"
    by simp
  from Cons.IH [of st1] p obtain st' where
    "record_run U st1 (map REPLACE_SCHEDULE ss) = Some (butlast (s # ss), st')"
    by auto
  with u ar r show ?case by simp
qed

theorem past_never_exceeds_limit_witness:
  "initData sample_imports (Inr None) =
     Inr \<lparr>past = [], present = DEFAULT_STATE sample_imports, future = []\<rparr>
   \<and> history_bounded sample_store
   \<and> past fresh_store = []
   \<and> length (map REPLACE_SCHEDULE (map numbered_schedule [0..<101])) = 101
   \<and> (\<exists>st'. dispatch_all sample_imports
           \<lparr>past = [], present = DEFAULT_STATE sample_imports, future = []\<rparr>
           [SET_LESSON ''c1_0_1'' (Some lesson_b), UNDO, REDO] = Inr st' \<and>
         length (past st') \<le> 100)
   \<and> (\<exists>st'. dispatch_all sample_imports sample_store
           [SET_LESSON ''c1_0_1'' (Some lesson_b), UNDO, UNDO, REDO] = Inr st' \<and>
         length (past st') \<le> 100)
   \<and> (\<exists>snaps st'.
         record_run sample_imports fresh_store
           (map REPLACE_SCHEDULE (map numbered_schedule [0..<101])) = Some (snaps, st') \<and>
         dispatch_all sample_imports fresh_store
           (map REPLACE_SCHEDULE (map numbered_schedule [0..<101])) = Inr st' \<and>
         length (past st') = 100 \<and>
         snaps = schedule (present fresh_store) # past st')"
proof -
  let ?i = "\<lparr>past = [], present = DEFAULT_STATE sample_imports, future = []\<rparr>"
  let ?as = "[SET_LESSON ''c1_0_1'' (Some lesson_b), UNDO, REDO]"
  let ?bs = "[SET_LESSON ''c1_0_1'' (Some lesson_b), UNDO, UNDO, REDO]"
  let ?rs = "map REPLACE_SCHEDULE (map numbered_schedule [0..<101])"
  have h0: "initData sample_imports (Inr None) = Inr ?i"
    by (simp add: initData_def initData_try_def)
  have h1: "history_bounded sample_store"
    by (simp add: history_bounded_def sample_store_def HISTORY_LIMIT_def)
  have h2: "past fresh_store = []" by (simp add: fresh_store_def)
  have h3: "length ?rs = 101" by simp
  obtain st1 where h4: "dispatch_all sample_imports ?i ?as = Inr st1"
    by (simp add: reducer_default_def isUndoable_def HISTORY_LIMIT_def)
  obtain st3 where h6: "dispatch_all sample_imports sample_store ?bs = Inr st3"
    by (simp add: sample_store_def reducer_default_def isUndoable_def HISTORY_LIMIT_def)
  from record_run_replace [of sample_imports fresh_store "map numbered_schedule [0..<101]"]
  obtain snaps st2 where h5: "record_run sample_imports fresh_store ?rs = Some (snaps, st2)"
    by blast
  from past_never_exceeds_limit [of sample_imports "Inr None" ?i ?as st1] h0 h4
  have c1: "length (past st1) \<le> 100" by blast
  from past_never_exceeds_limit [of sample_imports _ _ ?bs st3 sample_store] h1 h6
  have c3: "length (past st3) \<le> 100" by blast
  from past_never_exceeds_limit [of sample_imports _ _ ?rs st2 fresh_store snaps] h2 h3 h5
  have c2: "dispatch_all sample_imports fresh_store ?rs = Inr st2 \<and> length (past st2) = 100 \<and>
      snaps = schedule (present fresh_store) # past st2" by blast
  show ?thesis using h0 h1 h2 h3 h4 h6 h5 c1 c2 c3 by blast
qed

section \<open>Mutations of the schedule in \<open>appReducer\<close>\<close>

subsection \<open>Inherited names\<close>

text \<open>
  Two consequences of indexing a plain object. \<open>SET_LESSON\<close> with the key \<open>__proto__\<close> adds
  no entry: the assignment makes the placement the prototype of the new schedule object.
  \<open>MOVE_LESSON\<close> to a free key that names a function of \<open>Object.prototype\<close> finds that
  function at the target, takes the branch for an occupied target and leaves the function
  at the source key.
\<close>

lemma set_lesson_proto_key:
  assumes "fmlookup (entries (schedule state)) ''__proto__'' = None"
  shows "appReducer U state (SET_LESSON ''__proto__'' (Some d)) =
    Inr (NewObject (state\<lparr>schedule :=
      \<lparr>entries = entries (schedule state), proto = Lesson d\<rparr>\<rparr>))"
  using assms by (simp add: Let_def set_property_def spread_def)

lemma move_to_inherited_name:
  assumes "fmlookup (entries (schedule state)) fromKey = Some x"
    and "fmlookup (entries (schedule state)) toKey = None"
    and "toKey \<in> set inherited_function_names"
  shows "appReducer U state (MOVE_LESSON fromKey toKey) =
    Inr (NewObject (state\<lparr>schedule :=
      \<lparr>entries = fmupd fromKey (PrototypeFunction toKey)
          (fmupd toKey x (entries (schedule state))),
       proto = ObjectPrototype\<rparr>\<rparr>))"
proof -
  have p: "toKey \<noteq> ''__proto__''"
    using assms(3) by (auto simp: inherited_function_names_def)
  have ne: "fromKey \<noteq> toKey" using assms(1,2) by auto
  have g1: "get_property (spread (schedule state)) fromKey = Some x"
    using assms(1) by (simp add: get_property_def spread_def)
  have g2: "get_property (spread (schedule state)) toKey = Some (PrototypeFunction toKey)"
    using assms(2,3) p by (simp add: get_property_def spread_def)
  show ?thesis
    using g1 g2 p ne assms(1) by (simp add: Let_def set_property_def spread_def)
qed

text \<open>
  A key \<open>classId_day_period\<close> whose period is a number ends in a digit and is none of the
  inherited names.
\<close>

lemma slotKey_dictionary_key:
  assumes "period \<noteq> []" and "last period \<in> set ''0123456789''"
  shows "slotKey classId day period \<notin> set inherited_names"
    and "dictionary_key obj (slotKey classId day period)"
proof -
  have l: "last (slotKey classId day period) = last period"
    using assms(1) by (simp add: slotKey_def)
  have "\<forall>n \<in> set inherited_names. last n \<notin> set ''0123456789''"
    by (simp add: inherited_names_def inherited_function_names_def)
  with l assms(2) show "slotKey classId day period \<notin> set inherited_names" by metis
  then show "dictionary_key obj (slotKey classId day period)"
    by (simp add: dictionary_key_def)
qed

subsection \<open>Deleting a teacher or a class\<close>

lemma set_Object_keys: "set (Object_keys obj) = fmdom' (entries obj)"
  by (simp add: Object_keys_def fmdom'_alt_def)

lemma get_property_own:
  "fmlookup (entries obj) k = Some v \<Longrightarrow> get_property obj k = Some v"
  by (simp add: get_property_def)

lemma fold_delete_teacher_step:
  "fmlookup (entries (fold (delete_teacher_step t) ks m)) k =
     (case fmlookup (entries m) k of
        None \<Rightarrow> None
      | Some v \<Rightarrow> if k \<in> set ks \<and> teacherId_of v = Some t then None else Some v)"
proof (induction ks arbitrary: m)
  case Nil
  show ?case by (simp split: option.splits)
next
  case (Cons a ks)
  show ?case
    by (simp add: Cons.IH)
      (auto simp: delete_teacher_step_def delete_property_def get_property_def
        split: option.splits if_splits)
qed

lemma fold_delete_teacher_step_proto:
  "proto (fold (delete_teacher_step t) ks m) = proto m"
  by (induction ks arbitrary: m)
    (auto simp: delete_teacher_step_def delete_property_def split: option.splits)

lemma fold_delete_class_step:
  "fmlookup (entries (fold (delete_class_step c) ks m)) k =
     (if k \<in> set ks \<and> startsWith k (c @ ''_'') then None else fmlookup (entries m) k)"
proof (induction ks arbitrary: m)
  case Nil
  show ?case by simp
next
  case (Cons a ks)
  show ?case
    by (simp add: Cons.IH) (auto simp: delete_class_step_def delete_property_def)
qed

lemma fold_delete_class_step_proto:
  "proto (fold (delete_class_step c) ks m) = proto m"
  by (induction ks arbitrary: m) (auto simp: delete_class_step_def delete_property_def)

text \<open>
  When the loop of \<open>DELETE_TEACHER\<close> comes to a key, the keys visited before it are other
  keys, so the object still holds the entry it held at the start: \<open>newSchedT[k]\<close> is never
  \<open>undefined\<close> there.
\<close>

lemma distinct_Object_keys: "distinct (Object_keys obj)"
  by (simp add: Object_keys_def sorted_list_of_fset.rep_eq)

lemma delete_teacher_step_finds_entry:
  assumes "Object_keys s = visited @ k # rest"
  shows "get_property (fold (delete_teacher_step t) visited s) k = fmlookup (entries s) k"
    and "fmlookup (entries s) k \<noteq> None"
proof -
  have "distinct (visited @ k # rest)" using distinct_Object_keys [of s] assms by simp
  then have n: "k \<notin> set visited" by simp
  have "k \<in> set (Object_keys s)" using assms by simp
  then have "k \<in> fmdom' (entries s)" by (simp add: set_Object_keys)
  then obtain v where v: "fmlookup (entries s) k = Some v" by (auto simp: fmlookup_dom'_iff)
  then show "fmlookup (entries s) k \<noteq> None" by simp
  have "fmlookup (entries (fold (delete_teacher_step t) visited s)) k = Some v"
    using n v by (simp add: fold_delete_teacher_step)
  then show "get_property (fold (delete_teacher_step t) visited s) k = fmlookup (entries s) k"
    using v by (simp add: get_property_own)
qed

lemma delete_teacher_schedule:
  "fmlookup (entries (fold (delete_teacher_step t) (Object_keys (spread s)) (spread s))) k =
     (case fmlookup (entries s) k of
        None \<Rightarrow> None
      | Some v \<Rightarrow> if teacherId_of v = Some t then None else Some v)"
  by (auto simp: fold_delete_teacher_step set_Object_keys spread_def split: option.splits
      intro: fmdom'I)

lemma delete_class_schedule:
  "fmlookup (entries (fold (delete_class_step c) (Object_keys (spread s)) (spread s))) k =
     (if startsWith k (c @ ''_'') then None else fmlookup (entries s) k)"
  by (auto simp: fold_delete_class_step set_Object_keys spread_def)

lemma startsWith_slotKey: "startsWith (slotKey c day period) (c @ ''_'')"
  by (simp add: startsWith_def slotKey_def)

text \<open>
  Claim C7. \<open>DELETE_TEACHER\<close> returns, in one transition, a state without the teacher and
  with a schedule that holds exactly the former entries that do not refer to the teacher:
  no entry refers to the deleted teacher. \<open>DELETE_CLASS\<close> returns a state without the class
  and with a schedule in which every key that starts with the class id and an underscore
  is absent, in particular every key \<open>classId_day_period\<close> of the class; the other keys keep
  their entries. \<open>reducer\<close> makes that state the present one.
\<close>

theorem deletion_prunes_schedule:
  "(\<exists>s'. appReducer U (present st) (DELETE_TEACHER t) = Inr (NewObject s') \<and>
      reducer U st (DELETE_TEACHER t) = Inr (st\<lparr>present := s'\<rparr>) \<and>
      (\<forall>k v. fmlookup (entries (schedule s')) k = Some v \<longrightarrow>
         teacherId_of v \<noteq> Some t \<and> fmlookup (entries (schedule (present st))) k = Some v) \<and>
      (\<forall>k v. fmlookup (entries (schedule (present st))) k = Some v \<and>
           teacherId_of v \<noteq> Some t \<longrightarrow>
         fmlookup (entries (schedule s')) k = Some v) \<and>
      t \<notin> id_T ` set (teachers s'))
   \<and> (\<exists>s'. appReducer U (present st) (DELETE_CLASS c) = Inr (NewObject s') \<and>
      reducer U st (DELETE_CLASS c) = Inr (st\<lparr>present := s'\<rparr>) \<and>
      (\<forall>k. startsWith k (c @ ''_'') \<longrightarrow> fmlookup (entries (schedule s')) k = None) \<and>
      (\<forall>day period. fmlookup (entries (schedule s')) (slotKey c day period) = None) \<and>
      (\<forall>k. \<not> startsWith k (c @ ''_'') \<longrightarrow>
         fmlookup (entries (schedule s')) k = fmlookup (entries (schedule (present st))) k) \<and>
      c \<notin> id_C ` set (classes s'))"
proof (intro conjI)
  show "\<exists>s'. appReducer U (present st) (DELETE_TEACHER t) = Inr (NewObject s') \<and>
      reducer U st (DELETE_TEACHER t) = Inr (st\<lparr>present := s'\<rparr>) \<and>
      (\<forall>k v. fmlookup (entries (schedule s')) k = Some v \<longrightarrow>
         teacherId_of v \<noteq> Some t \<and> fmlookup (entries (schedule (present st))) k = Some v) \<and>
      (\<forall>k v. fmlookup (entries (schedule (present st))) k = Some v \<and>
           teacherId_of v \<noteq> Some t \<longrightarrow>
         fmlookup (entries (schedule s')) k = Some v) \<and>
      t \<notin> id_T ` set (teachers s')"
    by (auto simp: Let_def delete_teacher_schedule reducer_default_def isUndoable_def
        split: option.splits if_splits)
  show "\<exists>s'. appReducer U (present st) (DELETE_CLASS c) = Inr (NewObject s') \<and>
      reducer U st (DELETE_CLASS c) = Inr (st\<lparr>present := s'\<rparr>) \<and>
      (\<forall>k. startsWith k (c @ ''_'') \<longrightarrow> fmlookup (entries (schedule s')) k = None) \<and>
      (\<forall>day period. fmlookup (entries (schedule s')) (slotKey c day period) = None) \<and>
      (\<forall>k. \<not> startsWith k (c @ ''_'') \<longrightarrow>
         fmlookup (entries (schedule s')) k = fmlookup (entries (schedule (present st))) k) \<and>
      c \<notin> id_C ` set (classes s')"
    by (auto simp: Let_def delete_class_schedule startsWith_slotKey reducer_default_def
        isUndoable_def)
qed

theorem deletion_prunes_schedule_witness:
  "(\<exists>s'. appReducer sample_imports (present sample_store) (DELETE_TEACHER ''t1'') =
        Inr (NewObject s') \<and>
      fmlookup (entries (schedule (present sample_store))) ''c1_0_0'' = Some (Lesson lesson_a) \<and>
      fmlookup (entries (schedule (present sample_store))) ''c2_0_0'' = Some (Lesson lesson_b) \<and>
      teacherId_of (Lesson lesson_b) \<noteq> Some ''t1'' \<and>
      fmlookup (entries (schedule s')) ''c2_0_0'' = Some (Lesson lesson_b) \<and>
      fmlookup (entries (schedule s')) ''c1_0_0'' = None)
   \<and> (\<exists>s'. appReducer sample_imports (present sample_store) (DELETE_CLASS ''c1'') =
        Inr (NewObject s') \<and>
      startsWith ''c1_0_0'' (''c1'' @ ''_'') \<and>
      \<not> startsWith ''c2_0_0'' (''c1'' @ ''_'') \<and>
      fmlookup (entries (schedule s')) ''c1_0_0'' = None \<and>
      fmlookup (entries (schedule s')) (slotKey ''c1'' ''0'' ''0'') = None \<and>
      fmlookup (entries (schedule s')) ''c2_0_0'' = Some (Lesson lesson_b))"
proof -
  have a: "fmlookup (entries (schedule (present sample_store))) ''c1_0_0'' = Some (Lesson lesson_a)"
    and b: "fmlookup (entries (schedule (present sample_store))) ''c2_0_0'' = Some (Lesson lesson_b)"
    by (simp_all add: sample_store_def sample_state_def sample_schedule_def)
  have ta: "teacherId_of (Lesson lesson_a) = Some ''t1''"
    and tb: "teacherId_of (Lesson lesson_b) \<noteq> Some ''t1''"
    by (simp_all add: lesson_a_def lesson_b_def)
  have p1: "startsWith ''c1_0_0'' (''c1'' @ ''_'')"
    and p2: "\<not> startsWith ''c2_0_0'' (''c1'' @ ''_'')"
    by (simp_all add: startsWith_def)
  from deletion_prunes_schedule [of sample_imports sample_store "''t1''" "''c1''"]
  obtain s1 s2 where
    r1: "appReducer sample_imports (present sample_store) (DELETE_TEACHER ''t1'') =
        Inr (NewObject s1)"
    and n1: "\<forall>k v. fmlookup (entries (schedule s1)) k = Some v \<longrightarrow>
         teacherId_of v \<noteq> Some ''t1'' \<and>
         fmlookup (entries (schedule (present sample_store))) k = Some v"
    and k1: "\<forall>k v. fmlookup (entries (schedule (present sample_store))) k = Some v \<and>
         teacherId_of v \<noteq> Some ''t1'' \<longrightarrow>
         fmlookup (entries (schedule s1)) k = Some v"
    and r2: "appReducer sample_imports (present sample_store) (DELETE_CLASS ''c1'') =
        Inr (NewObject s2)"
    and n2: "\<forall>k. startsWith k (''c1'' @ ''_'') \<longrightarrow> fmlookup (entries (schedule s2)) k = None"
    and n3: "\<forall>day period. fmlookup (entries (schedule s2)) (slotKey ''c1'' day period) = None"
    and k2: "\<forall>k. \<not> startsWith k (''c1'' @ ''_'') \<longrightarrow>
         fmlookup (entries (schedule s2)) k =
           fmlookup (entries (schedule (present sample_store))) k"
    by blast
  from k1 b tb have c1: "fmlookup (entries (schedule s1)) ''c2_0_0'' = Some (Lesson lesson_b)"
    by blast
  have c2: "fmlookup (entries (schedule s1)) ''c1_0_0'' = None"
  proof (cases "fmlookup (entries (schedule s1)) ''c1_0_0''")
    case None
    then show ?thesis .
  next
    case (Some v)
    with n1 have "teacherId_of v \<noteq> Some ''t1'' \<and>
        fmlookup (entries (schedule (present sample_store))) ''c1_0_0'' = Some v"
      by blast
    with a ta show ?thesis by simp
  qed
  from n2 p1 have c3: "fmlookup (entries (schedule s2)) ''c1_0_0'' = None" by blast
  from n3 have c4: "fmlookup (entries (schedule s2)) (slotKey ''c1'' ''0'' ''0'') = None"
    by blast
  from k2 p2 b have c5: "fmlookup (entries (schedule s2)) ''c2_0_0'' = Some (Lesson lesson_b)"
    by simp
  show ?thesis using r1 r2 a b tb p1 p2 c1 c2 c3 c4 c5 by blast
qed

subsection \<open>Moving a lesson\<close>

lemma fcard_move:
  assumes "f |\<in>| A" and "t |\<notin>| A"
  shows "fcard (finsert t A |-| {|f|}) = fcard A"
proof -
  have "f \<noteq> t" using assms by auto
  then have "finsert t A |-| {|f|} = finsert t (A |-| {|f|})" by auto
  moreover have "t |\<notin>| A |-| {|f|}" using assms by auto
  ultimately have "fcard (finsert t A |-| {|f|}) = Suc (fcard (A |-| {|f|}))"
    by (simp add: fcard_finsert_disjoint)
  also have "\<dots> = fcard A" using assms(1) by (rule fcard_Suc_fminus1)
  finally show ?thesis .
qed

lemma get_property_dictionary_key:
  assumes "dictionary_key obj k"
  shows "get_property (spread obj) k = fmlookup (entries obj) k"
  using assms
  by (auto simp: dictionary_key_def get_property_def spread_def inherited_names_def
      split: option.splits)

lemma set_property_dictionary_key:
  assumes "k \<noteq> ''__proto__'' \<or> fmlookup (entries obj) k \<noteq> None"
  shows "set_property obj k v = obj\<lparr>entries := fmupd k v (entries obj)\<rparr>"
  using assms by (auto simp: set_property_def)

lemma dictionary_key_proto:
  assumes "dictionary_key obj k"
  shows "k \<noteq> ''__proto__'' \<or> fmlookup (entries obj) k \<noteq> None"
  using assms by (auto simp: dictionary_key_def inherited_names_def)

lemma moved_schedule:
  assumes f: "dictionary_key (schedule state) fromKey"
    and t: "dictionary_key (schedule state) toKey"
    and x: "fmlookup (entries (schedule state)) fromKey = Some x"
  shows "appReducer U state (MOVE_LESSON fromKey toKey) =
    Inr (NewObject (state\<lparr>schedule :=
      \<lparr>entries =
         (case fmlookup (entries (schedule state)) toKey of
            Some y \<Rightarrow> fmupd fromKey y (fmupd toKey x (entries (schedule state)))
          | None \<Rightarrow> fmdrop fromKey (fmupd toKey x (entries (schedule state)))),
       proto = ObjectPrototype\<rparr>\<rparr>))"
proof -
  have g1: "get_property (spread (schedule state)) fromKey = Some x"
    using get_property_dictionary_key [OF f] x by simp
  have g2: "get_property (spread (schedule state)) toKey = fmlookup (entries (schedule state)) toKey"
    by (rule get_property_dictionary_key [OF t])
  have s1: "set_property (spread (schedule state)) toKey x =
      \<lparr>entries = fmupd toKey x (entries (schedule state)), proto = ObjectPrototype\<rparr>"
    using dictionary_key_proto [OF t] by (auto simp: set_property_def spread_def)
  have s2: "set_property \<lparr>entries = fmupd toKey x (entries (schedule state)),
        proto = ObjectPrototype\<rparr> fromKey y =
      \<lparr>entries = fmupd fromKey y (fmupd toKey x (entries (schedule state))),
        proto = ObjectPrototype\<rparr>" for y
    using x by (auto simp: set_property_def)
  show ?thesis
    using g1 g2 s1 s2
    by (simp add: Let_def delete_property_def split: option.splits)
qed

text \<open>
  Claim C10, as amended. Let the source and the target key each be an entry of the schedule
  or none of the names inherited from \<open>Object.prototype\<close>. \<open>MOVE_LESSON\<close> with no placement
  at the source key returns the state object it was given, and \<open>reducer\<close> returns the store
  unchanged. With a placement at the source key it returns a new state: if the target key
  holds a placement the two placements are exchanged, otherwise the source placement is at
  the target key and the source key is absent; every other key keeps its entry. The number
  of placements is the same before and after.
\<close>

theorem move_lesson:
  assumes "dictionary_key (schedule (present st)) fromKey"
    and "dictionary_key (schedule (present st)) toKey"
  shows
  "(fmlookup (entries (schedule (present st))) fromKey = None \<longrightarrow>
      appReducer U (present st) (MOVE_LESSON fromKey toKey) = Inr SameObject \<and>
      reducer U st (MOVE_LESSON fromKey toKey) = Inr st)
   \<and> (fmlookup (entries (schedule (present st))) fromKey \<noteq> None \<longrightarrow>
      (\<exists>s'. appReducer U (present st) (MOVE_LESSON fromKey toKey) = Inr (NewObject s') \<and>
         (fmlookup (entries (schedule (present st))) toKey \<noteq> None \<longrightarrow>
            fmlookup (entries (schedule s')) toKey =
              fmlookup (entries (schedule (present st))) fromKey \<and>
            fmlookup (entries (schedule s')) fromKey =
              fmlookup (entries (schedule (present st))) toKey) \<and>
         (fmlookup (entries (schedule (present st))) toKey = None \<longrightarrow>
            fmlookup (entries (schedule s')) toKey =
              fmlookup (entries (schedule (present st))) fromKey \<and>
            fmlookup (entries (schedule s')) fromKey = None) \<and>
         (\<forall>k. k \<noteq> fromKey \<and> k \<noteq> toKey \<longrightarrow>
            fmlookup (entries (schedule s')) k = fmlookup (entries (schedule (present st))) k) \<and>
         fcard (fmdom (entries (schedule s'))) =
           fcard (fmdom (entries (schedule (present st))))))"
proof (intro conjI impI)
  assume n: "fmlookup (entries (schedule (present st))) fromKey = None"
  have "get_property (spread (schedule (present st))) fromKey = None"
    using get_property_dictionary_key [OF assms(1)] n by simp
  then show "appReducer U (present st) (MOVE_LESSON fromKey toKey) = Inr SameObject"
    by (simp add: Let_def)
  then show "reducer U st (MOVE_LESSON fromKey toKey) = Inr st"
    by (simp add: reducer_default_def)
next
  let ?E = "entries (schedule (present st))"
  assume "fmlookup ?E fromKey \<noteq> None"
  then obtain x where x: "fmlookup ?E fromKey = Some x" by auto
  note r = moved_schedule [OF assms x, of U]
  show "\<exists>s'. appReducer U (present st) (MOVE_LESSON fromKey toKey) = Inr (NewObject s') \<and>
         (fmlookup ?E toKey \<noteq> None \<longrightarrow>
            fmlookup (entries (schedule s')) toKey = fmlookup ?E fromKey \<and>
            fmlookup (entries (schedule s')) fromKey = fmlookup ?E toKey) \<and>
         (fmlookup ?E toKey = None \<longrightarrow>
            fmlookup (entries (schedule s')) toKey = fmlookup ?E fromKey \<and>
            fmlookup (entries (schedule s')) fromKey = None) \<and>
         (\<forall>k. k \<noteq> fromKey \<and> k \<noteq> toKey \<longrightarrow>
            fmlookup (entries (schedule s')) k = fmlookup ?E k) \<and>
         fcard (fmdom (entries (schedule s'))) = fcard (fmdom ?E)"
  proof (cases "fmlookup ?E toKey")
    case None
    have f: "fromKey |\<in>| fmdom ?E" using x by (rule fmdomI)
    have t: "toKey |\<notin>| fmdom ?E" using None by (rule fmdom_notI)
    have ne: "toKey \<noteq> fromKey" using x None by auto
    show ?thesis
      using r x None ne fcard_move [OF f t] by simp
  next
    case (Some y)
    have f: "fromKey |\<in>| fmdom ?E" using x by (rule fmdomI)
    have t: "toKey |\<in>| fmdom ?E" using Some by (rule fmdomI)
    have "finsert fromKey (finsert toKey (fmdom ?E)) = fmdom ?E"
      using f t by auto
    then show ?thesis
      using r x Some by auto
  qed
qed

theorem move_lesson_witness:
  "dictionary_key (schedule (present sample_store)) ''c9_0_0''
   \<and> dictionary_key (schedule (present sample_store)) ''c1_0_0''
   \<and> dictionary_key (schedule (present sample_store)) ''c2_0_0''
   \<and> dictionary_key (schedule (present sample_store)) ''c1_0_3''
   \<and> fmlookup (entries (schedule (present sample_store))) ''c9_0_0'' = None
   \<and> reducer sample_imports sample_store (MOVE_LESSON ''c9_0_0'' ''c1_0_0'') = Inr sample_store
   \<and> fmlookup (entries (schedule (present sample_store))) ''c1_0_0'' = Some (Lesson lesson_a)
   \<and> fmlookup (entries (schedule (present sample_store))) ''c2_0_0'' = Some (Lesson lesson_b)
   \<and> fmlookup (entries (schedule (present sample_store))) ''c1_0_3'' = None
   \<and> (\<exists>s'. appReducer sample_imports (present sample_store)
           (MOVE_LESSON ''c1_0_0'' ''c2_0_0'') = Inr (NewObject s') \<and>
         fmlookup (entries (schedule s')) ''c2_0_0'' = Some (Lesson lesson_a) \<and>
         fmlookup (entries (schedule s')) ''c1_0_0'' = Some (Lesson lesson_b) \<and>
         fcard (fmdom (entries (schedule s'))) =
           fcard (fmdom (entries (schedule (present sample_store)))))
   \<and> (\<exists>s'. appReducer sample_imports (present sample_store)
           (MOVE_LESSON ''c1_0_0'' ''c1_0_3'') = Inr (NewObject s') \<and>
         fmlookup (entries (schedule s')) ''c1_0_3'' = Some (Lesson lesson_a) \<and>
         fmlookup (entries (schedule s')) ''c1_0_0'' = None \<and>
         fmlookup (entries (schedule s')) ''c2_0_0'' = Some (Lesson lesson_b) \<and>
         fcard (fmdom (entries (schedule s'))) =
           fcard (fmdom (entries (schedule (present sample_store)))))"
proof -
  let ?E = "entries (schedule (present sample_store))"
  have k9: "dictionary_key (schedule (present sample_store)) ''c9_0_0''"
    and k1: "dictionary_key (schedule (present sample_store)) ''c1_0_0''"
    and k2: "dictionary_key (schedule (present sample_store)) ''c2_0_0''"
    and k3: "dictionary_key (schedule (present sample_store)) ''c1_0_3''"
    by (simp_all add: dictionary_key_def inherited_names_def inherited_function_names_def)
  have n: "fmlookup ?E ''c9_0_0'' = None"
    and a: "fmlookup ?E ''c1_0_0'' = Some (Lesson lesson_a)"
    and b: "fmlookup ?E ''c2_0_0'' = Some (Lesson lesson_b)"
    and e: "fmlookup ?E ''c1_0_3'' = None"
    by (simp_all add: sample_store_def sample_state_def sample_schedule_def)
  from move_lesson [OF k9 k1, of sample_imports] n
  have c1: "reducer sample_imports sample_store (MOVE_LESSON ''c9_0_0'' ''c1_0_0'') =
      Inr sample_store"
    by blast
  from move_lesson [OF k1 k2, of sample_imports] a b
  have c2: "\<exists>s'. appReducer sample_imports (present sample_store)
           (MOVE_LESSON ''c1_0_0'' ''c2_0_0'') = Inr (NewObject s') \<and>
         fmlookup (entries (schedule s')) ''c2_0_0'' = Some (Lesson lesson_a) \<and>
         fmlookup (entries (schedule s')) ''c1_0_0'' = Some (Lesson lesson_b) \<and>
         fcard (fmdom (entries (schedule s'))) = fcard (fmdom ?E)"
    by auto
  have d: "''c2_0_0'' \<noteq> ''c1_0_0'' \<and> ''c2_0_0'' \<noteq> ''c1_0_3''" by simp
  from move_lesson [OF k1 k3, of sample_imports] a e
  obtain s' where
    r: "appReducer sample_imports (present sample_store)
           (MOVE_LESSON ''c1_0_0'' ''c1_0_3'') = Inr (NewObject s')"
    and m: "fmlookup (entries (schedule s')) ''c1_0_3'' = Some (Lesson lesson_a)"
      "fmlookup (entries (schedule s')) ''c1_0_0'' = None"
    and o: "\<forall>k. k \<noteq> ''c1_0_0'' \<and> k \<noteq> ''c1_0_3'' \<longrightarrow>
            fmlookup (entries (schedule s')) k = fmlookup ?E k"
    and k: "fcard (fmdom (entries (schedule s'))) = fcard (fmdom ?E)"
    by auto
  from o d b have "fmlookup (entries (schedule s')) ''c2_0_0'' = Some (Lesson lesson_b)" by simp
  with r m k have c3: "\<exists>s'. appReducer sample_imports (present sample_store)
           (MOVE_LESSON ''c1_0_0'' ''c1_0_3'') = Inr (NewObject s') \<and>
         fmlookup (entries (schedule s')) ''c1_0_3'' = Some (Lesson lesson_a) \<and>
         fmlookup (entries (schedule s')) ''c1_0_0'' = None \<and>
         fmlookup (entries (schedule s')) ''c2_0_0'' = Some (Lesson lesson_b) \<and>
         fcard (fmdom (entries (schedule s'))) = fcard (fmdom ?E)"
    by blast
  show ?thesis using k9 k1 k2 k3 n a b e c1 c2 c3 by blast
qed

lemma fcard_sample_schedule: "fcard (fmdom (entries sample_schedule)) = 2"
  by (simp add: sample_schedule_def fcard_finsert_if)

text \<open>
  The claim C10 as it is worded speaks of every \<open>MOVE_LESSON\<close> action. With the source key
  \<open>constructor\<close>, which holds no placement in the sample schedule, \<open>schedCopy[fromKey]\<close> is
  the inherited function \<open>Object\<close>, which is truthy: \<open>appReducer\<close> stores it at the target
  key, the state is not returned unchanged, \<open>reducer\<close> records the step, and the schedule
  has three entries instead of two.
\<close>

theorem move_from_constructor:
  "fmlookup (entries (schedule (present sample_store))) ''constructor'' = None
   \<and> appReducer sample_imports (present sample_store) (MOVE_LESSON ''constructor'' ''c1_0_3'') =
       Inr (NewObject (sample_state\<lparr>schedule := moved_constructor\<rparr>))
   \<and> reducer sample_imports sample_store (MOVE_LESSON ''constructor'' ''c1_0_3'') =
       Inr \<lparr>past = [empty_object, sample_schedule],
            present = sample_state\<lparr>schedule := moved_constructor\<rparr>, future = []\<rparr>
   \<and> fcard (fmdom (entries (schedule (present sample_store)))) = 2
   \<and> fcard (fmdom (entries moved_constructor)) = 3"
proof -
  have n: "fmlookup (entries (schedule (present sample_store))) ''constructor'' = None"
    by (simp add: sample_store_def sample_state_def sample_schedule_def)
  have g1: "get_property (spread sample_schedule) ''constructor'' =
      Some (PrototypeFunction ''constructor'')"
    by (simp add: get_property_def spread_def sample_schedule_def inherited_function_names_def)
  have g2: "get_property (spread sample_schedule) ''c1_0_3'' = None"
    by (simp add: get_property_def spread_def sample_schedule_def inherited_function_names_def)
  have s1: "set_property (spread sample_schedule) ''c1_0_3'' (PrototypeFunction ''constructor'') =
      moved_constructor"
    by (simp add: set_property_def spread_def moved_constructor_def)
  have "''constructor'' |\<notin>| fmdom (entries moved_constructor)"
    by (simp add: moved_constructor_def sample_schedule_def)
  then have d: "delete_property moved_constructor ''constructor'' = moved_constructor"
    by (simp add: delete_property_def fmdrop_idle)
  have a: "appReducer sample_imports (present sample_store)
      (MOVE_LESSON ''constructor'' ''c1_0_3'') =
       Inr (NewObject (sample_state\<lparr>schedule := moved_constructor\<rparr>))"
    using g1 g2 s1 d by (simp add: sample_store_def sample_state_def Let_def)
  have r: "reducer sample_imports sample_store (MOVE_LESSON ''constructor'' ''c1_0_3'') =
       Inr \<lparr>past = [empty_object, sample_schedule],
            present = sample_state\<lparr>schedule := moved_constructor\<rparr>, future = []\<rparr>"
    using a
    by (simp add: reducer_default_def isUndoable_def HISTORY_LIMIT_def sample_store_def
        sample_state_def)
  have c2: "fcard (fmdom (entries (schedule (present sample_store)))) = 2"
    using fcard_sample_schedule by (simp add: sample_store_def sample_state_def)
  have c3: "fcard (fmdom (entries moved_constructor)) = 3"
    by (simp add: moved_constructor_def sample_schedule_def fcard_finsert_if)
  show ?thesis using n a r c2 c3 by blast
qed

section \<open>Initialisation\<close>

text \<open>
  Claim C9. \<open>initData\<close> always returns a store, with empty \<open>past\<close> and \<open>future\<close>, whatever
  \<open>localStorage\<close>, \<open>JSON.parse\<close> and \<open>deepMerge\<close> do. When nothing is stored, when the stored
  text is empty or does not parse, and when reading it throws, the present state is
  \<open>DEFAULT_STATE\<close>. When the stored text parses and \<open>deepMerge\<close> returns, the present state
  is the result of merging the parsed payload over \<open>DEFAULT_STATE\<close>, an \<open>AppState\<close> with
  every field; should \<open>deepMerge\<close> throw, the present state is \<open>DEFAULT_STATE\<close> again. The
  \<open>INIT\<close> action installs the merge of its payload over \<open>DEFAULT_STATE\<close> in the same way.
\<close>

theorem initData_never_throws:
  "(\<exists>h. initData U getItem = Inr h \<and> past h = [] \<and> future h = [])
   \<and> (getItem = Inr None \<or> getItem = Inr (Some []) \<or> getItem = Inl e \<longrightarrow>
        initData U getItem = Inr \<lparr>past = [], present = DEFAULT_STATE U, future = []\<rparr>)
   \<and> (getItem = Inr (Some text) \<and> JSON_parse U text = Inl e \<longrightarrow>
        initData U getItem = Inr \<lparr>past = [], present = DEFAULT_STATE U, future = []\<rparr>)
   \<and> (getItem = Inr (Some text) \<and> text \<noteq> [] \<and> JSON_parse U text = Inr parsed \<and>
        deepMerge U (DEFAULT_STATE U) parsed = Inr mergedState \<longrightarrow>
        initData U getItem = Inr \<lparr>past = [], present = mergedState, future = []\<rparr>)
   \<and> (getItem = Inr (Some text) \<and> JSON_parse U text = Inr parsed \<and>
        deepMerge U (DEFAULT_STATE U) parsed = Inl e \<longrightarrow>
        initData U getItem = Inr \<lparr>past = [], present = DEFAULT_STATE U, future = []\<rparr>)
   \<and> (deepMerge U (DEFAULT_STATE U) payload = Inr mergedState \<longrightarrow>
        reducer U st (INIT payload) = Inr \<lparr>past = [], present = mergedState, future = []\<rparr>)"
  by (auto simp: initData_def initData_try_def split: sum.splits option.splits)

theorem initData_never_throws_witness:
  "sample_text \<noteq> []
   \<and> JSON_parse sample_imports sample_text = Inr sample_payload
   \<and> JSON_parse sample_imports ''{teachers'' = Inl SyntaxError
   \<and> deepMerge sample_imports (DEFAULT_STATE sample_imports) sample_payload =
       Inr ((DEFAULT_STATE sample_imports)
         \<lparr>ui := ui (DEFAULT_STATE sample_imports) ++\<^sub>f fmupd ''language'' (JStr ''en'') fmempty\<rparr>)
   \<and> initData sample_imports (Inr None) =
       Inr \<lparr>past = [], present = DEFAULT_STATE sample_imports, future = []\<rparr>
   \<and> initData sample_imports (Inr (Some ''{teachers'')) =
       Inr \<lparr>past = [], present = DEFAULT_STATE sample_imports, future = []\<rparr>
   \<and> initData sample_imports (Inr (Some sample_text)) =
       Inr \<lparr>past = [],
            present = (DEFAULT_STATE sample_imports)
              \<lparr>ui := ui (DEFAULT_STATE sample_imports) ++\<^sub>f fmupd ''language'' (JStr ''en'') fmempty\<rparr>,
            future = []\<rparr>
   \<and> reducer sample_imports sample_store (INIT sample_payload) =
       Inr \<lparr>past = [],
            present = (DEFAULT_STATE sample_imports)
              \<lparr>ui := ui (DEFAULT_STATE sample_imports) ++\<^sub>f fmupd ''language'' (JStr ''en'') fmempty\<rparr>,
            future = []\<rparr>"
proof -
  let ?m = "(DEFAULT_STATE sample_imports)
         \<lparr>ui := ui (DEFAULT_STATE sample_imports) ++\<^sub>f fmupd ''language'' (JStr ''en'') fmempty\<rparr>"
  have h1: "sample_text \<noteq> []" by (simp add: sample_text_def)
  have h2: "JSON_parse sample_imports sample_text = Inr sample_payload"
    by (simp add: sample_imports_def sample_text_def)
  have h3: "JSON_parse sample_imports ''{teachers'' = Inl SyntaxError"
    by (simp add: sample_imports_def sample_text_def)
  have h4: "deepMerge sample_imports (DEFAULT_STATE sample_imports) sample_payload = Inr ?m"
    by (simp add: sample_imports_def sample_payload_def)
  have c1: "initData sample_imports (Inr None) =
       Inr \<lparr>past = [], present = DEFAULT_STATE sample_imports, future = []\<rparr>"
    using initData_never_throws [of sample_imports "Inr None"] by blast
  have c2: "initData sample_imports (Inr (Some ''{teachers'')) =
       Inr \<lparr>past = [], present = DEFAULT_STATE sample_imports, future = []\<rparr>"
    using initData_never_throws [of sample_imports "Inr (Some ''{teachers'')" _ "''{teachers''" ] h3
    by blast
  have c3: "initData sample_imports (Inr (Some sample_text)) =
       Inr \<lparr>past = [], present = ?m, future = []\<rparr>"
    using initData_never_throws [of sample_imports "Inr (Some sample_text)" _ sample_text
        sample_payload ?m] h1 h2 h4
    by blast
  have c4: "reducer sample_imports sample_store (INIT sample_payload) =
       Inr \<lparr>past = [], present = ?m, future = []\<rparr>"
    using initData_never_throws [of sample_imports _ _ _ _ ?m sample_payload sample_store] h4
    by blast
  show ?thesis using h1 h2 h3 h4 c1 c2 c3 c4 by blast
qed

section \<open>Properties of the time grid\<close>

lemma lessons_slots_from:
  "length (filter (\<lambda>x. \<not> isBreak x) (slots_from s k i t idx)) = k"
  by (induction k arbitrary: i t idx) (simp_all add: Let_def)

lemma mod_Suc_zero:
  fixes B :: nat
  assumes "Suc i mod B = 0" and "B > 0"
  shows "i mod B = B - 1"
  using assms by (metis diff_Suc_1 mod_Suc nat.distinct(1))

lemma mod_Suc_nonzero:
  fixes B :: nat
  assumes "Suc i mod B \<noteq> 0"
  shows "Suc i mod B = Suc (i mod B)"
  using assms by (simp add: mod_Suc split: if_splits)

lemma breaks_slots_from:
  assumes "nat (lessonsBeforeBreak s) > 0"
  shows "length (filter isBreak (slots_from s k i t idx)) =
    (i mod nat (lessonsBeforeBreak s) + k - 1) div nat (lessonsBeforeBreak s)"
proof (induction k arbitrary: i t idx)
  case 0
  have "i mod nat (lessonsBeforeBreak s) - 1 < nat (lessonsBeforeBreak s)"
    using assms by (meson less_imp_diff_less mod_less_divisor)
  then show ?case by simp
next
  case (Suc k)
  let ?B = "nat (lessonsBeforeBreak s)"
  show ?case
  proof (cases "Suc i mod ?B = 0")
    case True
    then have r: "i mod ?B = ?B - 1" using assms by (rule mod_Suc_zero)
    show ?thesis
    proof (cases "k > 0")
      case True
      have "(?B - 1 + Suc k - 1) div ?B = (?B + (k - 1)) div ?B"
        using True assms by (intro arg_cong [where f = "\<lambda>x. x div ?B"]) simp
      also have "\<dots> = Suc ((k - 1) div ?B)" using assms by simp
      finally show ?thesis
        using True \<open>Suc i mod ?B = 0\<close> r Suc.IH by (simp add: Let_def)
    next
      case False
      then show ?thesis using True r assms by (simp add: Let_def)
    qed
  next
    case False
    then have "Suc i mod ?B = Suc (i mod ?B)" by (rule mod_Suc_nonzero)
    then show ?thesis using False Suc.IH by (simp add: Let_def)
  qed
qed

lemma break_positions_slots_from:
  assumes "nat (lessonsBeforeBreak s) > 0" and "j < length (slots_from s k i t idx)"
  shows "isBreak (slots_from s k i t idx ! j) \<longleftrightarrow>
    (i mod nat (lessonsBeforeBreak s) + j) mod (nat (lessonsBeforeBreak s) + 1) =
      nat (lessonsBeforeBreak s)"
  using assms(2)
proof (induction k arbitrary: i t idx j)
  case 0
  then show ?case by simp
next
  case (Suc k)
  let ?B = "nat (lessonsBeforeBreak s)"
  have rB: "i mod ?B < ?B" using assms(1) by simp
  show ?case
  proof (cases "Suc i mod ?B = 0 \<and> k > 0")
    case True
    then have r: "i mod ?B = ?B - 1" using assms(1) by (simp add: mod_Suc_zero)
    consider "j = 0" | "j = 1" | j' where "j = Suc (Suc j')"
      by (metis One_nat_def not0_implies_Suc)
    then show ?thesis
    proof cases
      case 1
      then show ?thesis using True r assms(1) by (simp add: Let_def)
    next
      case 2
      then show ?thesis using True r assms(1) by (simp add: Let_def)
    next
      case 3
      have "(?B - 1 + Suc (Suc j')) mod (?B + 1) = (j' + (?B + 1)) mod (?B + 1)"
        using assms(1) by (intro arg_cong [where f = "\<lambda>x. x mod (?B + 1)"]) simp
      also have "\<dots> = j' mod (?B + 1)" by (rule mod_add_self2)
      finally have e: "(?B - 1 + Suc (Suc j')) mod (?B + 1) = j' mod (?B + 1)" .
      from Suc.prems 3 True
      have "j' < length (slots_from s k (Suc i)
          (t + lessonDuration s + breakDuration s) (idx + 2))"
        by (simp add: Let_def)
      from Suc.IH [OF this] True
      have "isBreak (slots_from s k (Suc i)
          (t + lessonDuration s + breakDuration s) (idx + 2) ! j') \<longleftrightarrow>
          j' mod (?B + 1) = ?B"
        by simp
      then show ?thesis using 3 True r e by (simp add: Let_def)
    qed
  next
    case False
    show ?thesis
    proof (cases j)
      case 0
      then show ?thesis using False rB by (simp add: Let_def)
    next
      case (Suc j')
      from Suc.prems Suc False
      have l: "j' < length (slots_from s k (Suc i) (t + lessonDuration s) (idx + 1))"
        by (auto simp: Let_def)
      show ?thesis
      proof (cases "Suc i mod ?B = 0")
        case True
        with False have "k = 0" by simp
        with l show ?thesis by simp
      next
        case False
        then have "Suc i mod ?B = Suc (i mod ?B)" by (rule mod_Suc_nonzero)
        with Suc.IH [OF l] Suc False show ?thesis by (simp add: Let_def)
      qed
    qed
  qed
qed

lemma contiguous_slots_from: "contiguous_from t (slots_from s k i t idx)"
  by (induction k arbitrary: i t idx) (simp_all add: Let_def)

lemma contiguous_from_nth:
  assumes "contiguous_from t xs" and "Suc j < length xs"
  shows "startMinute (xs ! Suc j) = endMinute (xs ! j)"
  using assms
proof (induction xs arbitrary: t j)
  case Nil
  then show ?case by simp
next
  case (Cons x xs)
  show ?case
  proof (cases j)
    case 0
    with Cons.prems show ?thesis by (cases xs) simp_all
  next
    case (Suc j')
    with Cons.prems Cons.IH [of "endMinute x" j'] show ?thesis by simp
  qed
qed

lemma contiguous_from_hd:
  assumes "contiguous_from t xs" and "xs \<noteq> []"
  shows "startMinute (hd xs) = t"
  using assms by (cases xs) simp_all

lemma durations_slots_from:
  assumes "x \<in> set (slots_from s k i t idx)"
  shows "endMinute x = startMinute x + (if isBreak x then breakDuration s else lessonDuration s)"
  using assms
  by (induction k arbitrary: i t idx) (auto simp: Let_def split: if_splits)

lemma computeSlots_valid:
  assumes "valid_settings s"
  shows "\<exists>t0. parseTime (startTime s) = Some t0 \<and>
    computeSlots s = Inr (slots_from s (nat (totalLessons s)) 0 t0 0)"
  using assms by (auto simp: valid_settings_def computeSlots_def)

lemma slots_from_nonempty: "k > 0 \<Longrightarrow> slots_from s k i t idx \<noteq> []"
  by (cases k) (simp_all add: Let_def)

text \<open>
  Claim C6. For valid time settings \<open>computeSlots\<close> returns a non-empty list of slots with
  exactly \<open>totalLessons\<close> lesson slots and \<open>(totalLessons - 1) div lessonsBeforeBreak\<close> break
  slots. The slot at position \<open>j\<close> (from 0) is a break exactly when
  \<open>j mod (lessonsBeforeBreak + 1) = lessonsBeforeBreak\<close>, that is after every
  \<open>lessonsBeforeBreak\<close> lessons; there is no break when \<open>lessonsBeforeBreak \<ge> totalLessons\<close>.
  The first slot starts at the start time, every other slot starts when the slot before it
  ends, a lesson slot ends \<open>lessonDuration\<close> minutes and a break slot \<open>breakDuration\<close>
  minutes after it starts.
\<close>

theorem computeSlots_grid:
  assumes "valid_settings s"
  shows "\<exists>slots t0. computeSlots s = Inr slots \<and> parseTime (startTime s) = Some t0 \<and>
     length (filter (\<lambda>x. \<not> isBreak x) slots) = nat (totalLessons s) \<and>
     length (filter isBreak slots) =
       (nat (totalLessons s) - 1) div nat (lessonsBeforeBreak s) \<and>
     (\<forall>j < length slots.
        isBreak (slots ! j) \<longleftrightarrow>
          j mod (nat (lessonsBeforeBreak s) + 1) = nat (lessonsBeforeBreak s)) \<and>
     (lessonsBeforeBreak s \<ge> totalLessons s \<longrightarrow> filter isBreak slots = []) \<and>
     slots \<noteq> [] \<and> startMinute (hd slots) = t0 \<and>
     (\<forall>j. Suc j < length slots \<longrightarrow> startMinute (slots ! Suc j) = endMinute (slots ! j)) \<and>
     (\<forall>x \<in> set slots.
        endMinute x =
          startMinute x + (if isBreak x then breakDuration s else lessonDuration s))"
proof -
  let ?B = "nat (lessonsBeforeBreak s)" and ?n = "nat (totalLessons s)"
  from computeSlots_valid [OF assms] obtain t0 where
    t0: "parseTime (startTime s) = Some t0" and
    cs: "computeSlots s = Inr (slots_from s ?n 0 t0 0)"
    by blast
  let ?slots = "slots_from s ?n 0 t0 0"
  have B: "?B > 0" and n: "?n > 0" using assms by (simp_all add: valid_settings_def)
  have 1: "length (filter (\<lambda>x. \<not> isBreak x) ?slots) = ?n" by (rule lessons_slots_from)
  have 2: "length (filter isBreak ?slots) = (?n - 1) div ?B"
    using breaks_slots_from [OF B, of ?n 0 t0 0] by simp
  have 3: "\<forall>j < length ?slots. isBreak (?slots ! j) \<longleftrightarrow> j mod (?B + 1) = ?B"
    using break_positions_slots_from [OF B, of _ ?n 0 t0 0] by simp
  have 4: "lessonsBeforeBreak s \<ge> totalLessons s \<longrightarrow> filter isBreak ?slots = []"
  proof
    assume "lessonsBeforeBreak s \<ge> totalLessons s"
    then have "?n - 1 < ?B" using n by linarith
    then have "(?n - 1) div ?B = 0" by simp
    with 2 show "filter isBreak ?slots = []" by simp
  qed
  have 5: "?slots \<noteq> []" using n by (rule slots_from_nonempty)
  have c: "contiguous_from t0 ?slots" by (rule contiguous_slots_from)
  have 6: "startMinute (hd ?slots) = t0" using c 5 by (rule contiguous_from_hd)
  have 7: "\<forall>j. Suc j < length ?slots \<longrightarrow>
      startMinute (?slots ! Suc j) = endMinute (?slots ! j)"
    using contiguous_from_nth [OF c] by blast
  have 8: "\<forall>x \<in> set ?slots. endMinute x =
      startMinute x + (if isBreak x then breakDuration s else lessonDuration s)"
    using durations_slots_from by blast
  from cs t0 1 2 3 4 5 6 7 8 show ?thesis by blast
qed

lemma computeSlots_scenario:
  "computeSlots scenario_settings =
     Inr [\<lparr>index = 0, startMinute = 480, endMinute = 525, isBreak = False\<rparr>,
          \<lparr>index = 1, startMinute = 525, endMinute = 570, isBreak = False\<rparr>,
          \<lparr>index = 2, startMinute = 570, endMinute = 585, isBreak = True\<rparr>,
          \<lparr>index = 3, startMinute = 585, endMinute = 630, isBreak = False\<rparr>,
          \<lparr>index = 4, startMinute = 630, endMinute = 675, isBreak = False\<rparr>]"
  by (simp add: computeSlots_def scenario_settings_def parseTime_def digit_value_def
      eval_nat_numeral Let_def mod_Suc)

lemma scenario_labels:
  "parseTime ''08:00'' = Some 480" "parseTime ''08:45'' = Some 525"
  "parseTime ''09:30'' = Some 570" "parseTime ''09:45'' = Some 585"
  "parseTime ''10:30'' = Some 630" "parseTime ''11:15'' = Some 675"
  by (simp_all add: parseTime_def digit_value_def)

lemma valid_scenario: "valid_settings scenario_settings"
  by (simp add: valid_settings_def scenario_settings_def parseTime_def digit_value_def)

lemma valid_no_break:
  "valid_settings (scenario_settings\<lparr>lessonsBeforeBreak := 4\<rparr>)"
  by (simp add: valid_settings_def scenario_settings_def parseTime_def digit_value_def)

theorem computeSlots_grid_witness:
  "valid_settings scenario_settings
   \<and> computeSlots scenario_settings = Inr scenario_slots
   \<and> map (\<lambda>x. (isBreak x, Some (startMinute x), Some (endMinute x))) scenario_slots =
       [(False, parseTime ''08:00'', parseTime ''08:45''),
        (False, parseTime ''08:45'', parseTime ''09:30''),
        (True, parseTime ''09:30'', parseTime ''09:45''),
        (False, parseTime ''09:45'', parseTime ''10:30''),
        (False, parseTime ''10:30'', parseTime ''11:15'')]
   \<and> length (filter (\<lambda>x. \<not> isBreak x) scenario_slots) = 4
   \<and> length (filter isBreak scenario_slots) = 1
   \<and> (2::nat) < length scenario_slots \<and> isBreak (scenario_slots ! 2)
   \<and> Suc 2 < length scenario_slots
   \<and> startMinute (scenario_slots ! Suc 2) = endMinute (scenario_slots ! 2)
   \<and> scenario_slots ! 2 \<in> set scenario_slots
   \<and> endMinute (scenario_slots ! 2) = startMinute (scenario_slots ! 2) + 15
   \<and> valid_settings (scenario_settings\<lparr>lessonsBeforeBreak := 4\<rparr>)
   \<and> lessonsBeforeBreak (scenario_settings\<lparr>lessonsBeforeBreak := 4\<rparr>)
       \<ge> totalLessons (scenario_settings\<lparr>lessonsBeforeBreak := 4\<rparr>)
   \<and> (\<exists>slots. computeSlots (scenario_settings\<lparr>lessonsBeforeBreak := 4\<rparr>) = Inr slots \<and>
         filter isBreak slots = [] \<and> length slots = 4)"
proof -
  have cs: "computeSlots scenario_settings = Inr scenario_slots"
    unfolding scenario_slots_def by (rule computeSlots_scenario)
  have lab: "map (\<lambda>x. (isBreak x, Some (startMinute x), Some (endMinute x))) scenario_slots =
       [(False, parseTime ''08:00'', parseTime ''08:45''),
        (False, parseTime ''08:45'', parseTime ''09:30''),
        (True, parseTime ''09:30'', parseTime ''09:45''),
        (False, parseTime ''09:45'', parseTime ''10:30''),
        (False, parseTime ''10:30'', parseTime ''11:15'')]"
    by (simp add: scenario_slots_def scenario_labels)
  have len: "length scenario_slots = 5" by (simp add: scenario_slots_def)
  have mem: "scenario_slots ! 2 \<in> set scenario_slots" using len by simp
  have s4: "nat (totalLessons scenario_settings) = 4"
    and s2: "nat (lessonsBeforeBreak scenario_settings) = 2"
    and bd: "breakDuration scenario_settings = 15"
    by (simp_all add: scenario_settings_def)
  from computeSlots_grid [OF valid_scenario] cs
  have a: "length (filter (\<lambda>x. \<not> isBreak x) scenario_slots) = nat (totalLessons scenario_settings)"
    and b: "length (filter isBreak scenario_slots) =
       (nat (totalLessons scenario_settings) - 1) div nat (lessonsBeforeBreak scenario_settings)"
    and c: "\<forall>j < length scenario_slots. isBreak (scenario_slots ! j) \<longleftrightarrow>
          j mod (nat (lessonsBeforeBreak scenario_settings) + 1) =
            nat (lessonsBeforeBreak scenario_settings)"
    and d: "\<forall>j. Suc j < length scenario_slots \<longrightarrow>
          startMinute (scenario_slots ! Suc j) = endMinute (scenario_slots ! j)"
    and e: "\<forall>x \<in> set scenario_slots. endMinute x = startMinute x +
          (if isBreak x then breakDuration scenario_settings
           else lessonDuration scenario_settings)"
    by auto
  from a s4 have a': "length (filter (\<lambda>x. \<not> isBreak x) scenario_slots) = 4" by simp
  from b s4 s2 have b': "length (filter isBreak scenario_slots) = 1" by simp
  from c len s2 have c': "isBreak (scenario_slots ! 2)" by simp
  have l2: "(2::nat) < length scenario_slots" and l3: "Suc 2 < length scenario_slots"
    using len by simp_all
  from d l3 have d': "startMinute (scenario_slots ! Suc 2) = endMinute (scenario_slots ! 2)"
    by blast
  from e mem c' bd
  have e': "endMinute (scenario_slots ! 2) = startMinute (scenario_slots ! 2) + 15" by simp
  let ?s = "scenario_settings\<lparr>lessonsBeforeBreak := 4\<rparr>"
  have g: "lessonsBeforeBreak ?s \<ge> totalLessons ?s" by (simp add: scenario_settings_def)
  have n4: "nat (totalLessons ?s) = 4" by (simp add: scenario_settings_def)
  from computeSlots_grid [OF valid_no_break] g n4
  obtain slots where
    f1: "computeSlots ?s = Inr slots" and f2: "filter isBreak slots = []"
    and f3: "length (filter (\<lambda>x. \<not> isBreak x) slots) = 4"
    by auto
  from f2 have "filter (\<lambda>x. \<not> isBreak x) slots = slots"
    by (simp add: filter_empty_conv)
  with f3 have f4: "length slots = 4" by simp
  show ?thesis
    using valid_scenario cs lab a' b' l2 l3 c' d' mem e' valid_no_break g f1 f2 f4 by blast
qed

end
